theory Spec2Isabelle
  imports Complex_Main "HOL-Library.AList" "HOL-Library.Word"
begin

section \<open>JavaScript values\<close>

text \<open>
  A JavaScript number is idealised as a real: rounding error, the infinities and NaN are
  outside the model, except where the source itself stores NaN (the pen) or divides by a
  scale that may be zero (the view box).

  A string that the source builds with a template literal is kept as the list of its
  pieces: the literal text and, unrendered, the numbers spliced into it. Two such strings
  are compared piece by piece.
\<close>

datatype piece = Lit string | Val real | NonFinite

type_synonym tstring = "piece list"

datatype jsval = Undefined | Num real | Str tstring

definition lit :: "string \<Rightarrow> jsval" where
  "lit s = Str [Lit s]"

text \<open>\<^verbatim>\<open>Array.prototype.join(',')\<close> on an array of numbers.\<close>

fun join_comma :: "real list \<Rightarrow> tstring" where
  "join_comma [] = []"
| "join_comma [x] = [Val x]"
| "join_comma (x # y # ys) = Val x # Lit '','' # join_comma (y # ys)"

text \<open>How often a character occurs in the literal text of a string.\<close>

fun count_char :: "char \<Rightarrow> tstring \<Rightarrow> nat" where
  "count_char ch [] = 0"
| "count_char ch (Lit s # ps) = count_list s ch + count_char ch ps"
| "count_char ch (p # ps) = count_char ch ps"

section \<open>Angles\<close>

definition TWO_PI :: real where
  "TWO_PI = 2 * pi"

text \<open>The remainder operator \<^verbatim>\<open>%\<close>: the quotient is truncated towards zero.\<close>

definition js_rem :: "real \<Rightarrow> real \<Rightarrow> real" where
  "js_rem a b = a - b * of_int (if 0 \<le> a / b then \<lfloor>a / b\<rfloor> else \<lceil>a / b\<rceil>)"

definition normalizeAngle :: "real \<Rightarrow> real" where
  "normalizeAngle angle =
     (let angle = js_rem angle TWO_PI
      in if angle < 0 then angle + TWO_PI else angle)"


section \<open>Attribute objects\<close>

text \<open>
  An attribute object (\<^verbatim>\<open>SVGAttributes\<close>) is an association list in insertion order, the order
  in which \<^verbatim>\<open>for ... in\<close> visits its keys. Assigning to a key keeps the key's place when it
  is there already and appends it otherwise, which is \<^const>\<open>AList.update\<close>. A key that is
  absent reads as \<^const>\<open>Undefined\<close>. The objects the context builds have distinct keys; an
  object that a caller passes in is taken as the list it is given as, with no array index
  among its names (\<^verbatim>\<open>for ... in\<close> would visit those first).
\<close>

type_synonym attrs = "(string \<times> jsval) list"

definition aget :: "attrs \<Rightarrow> string \<Rightarrow> jsval" where
  "aget a k = (case map_of a k of None \<Rightarrow> Undefined | Some v \<Rightarrow> v)"

text \<open>The object spread \<^verbatim>\<open>{ ...base, ...ext }\<close>.\<close>

definition spread :: "attrs \<Rightarrow> attrs \<Rightarrow> attrs" where
  "spread base ext = fold (\<lambda>(k, v). AList.update k v) ext base"

definition PROP_MAP :: "(string \<times> string) list" where
  "PROP_MAP =
     [(''font-family'', ''fontFamily''),
      (''font-size'', ''fontSize''),
      (''font-weight'', ''fontWeight''),
      (''font-style'', ''fontStyle''),
      (''stroke-width'', ''strokeWidth''),
      (''stroke-dasharray'', ''strokeDasharray''),
      (''stroke-linecap'', ''strokeLinecap''),
      (''pointer-events'', ''pointerEvents''),
      (''class'', ''className'')]"

text \<open>\<^verbatim>\<open>PROP_MAP[attrName] ?? attrName\<close>\<close>

definition propName :: "string \<Rightarrow> string" where
  "propName attrName = (case map_of PROP_MAP attrName of Some p \<Rightarrow> p | None \<Rightarrow> attrName)"

datatype ntype = Svg | G | Path | Rect | Text

definition ATTRIBUTES_TO_IGNORE :: "ntype \<Rightarrow> string list" where
  "ATTRIBUTES_TO_IGNORE ty =
     (case ty of
        Path \<Rightarrow> [''x'', ''y'', ''width'', ''height'',
                 ''font-family'', ''font-weight'', ''font-style'', ''font-size'']
      | Rect \<Rightarrow> [''font-family'', ''font-weight'', ''font-style'', ''font-size'']
      | Text \<Rightarrow> [''width'', ''height'']
      | _ \<Rightarrow> [])"

text \<open>
  The ignore table of an element type is a plain object, so reading it at a name that
  \<^verbatim>\<open>Object.prototype\<close> defines yields that member, which is truthy: such an attribute name
  is skipped like a listed one.
\<close>

definition object_prototype_names :: "string list" where
  "object_prototype_names =
     [''constructor'', ''hasOwnProperty'', ''isPrototypeOf'', ''propertyIsEnumerable'',
      ''toLocaleString'', ''toString'', ''valueOf'', ''__proto__'',
      ''__defineGetter__'', ''__defineSetter__'', ''__lookupGetter__'', ''__lookupSetter__'']"

definition attrNamesToIgnore :: "ntype \<Rightarrow> string \<Rightarrow> bool" where
  "attrNamesToIgnore ty attrName \<longleftrightarrow>
     attrName \<in> set (ATTRIBUTES_TO_IGNORE ty) \<or> attrName \<in> set object_prototype_names"

section \<open>The scene tree and the context\<close>

text \<open>
  Nodes are objects that the context mutates after it has handed them out, so they live in
  a store. A node that the context creates is stored at its creation key; \<open>Ext\<close> refers to
  a node that the caller built and passed to \<^verbatim>\<open>add\<close>, which the context never reads.
\<close>

datatype ref = Own nat | Ext nat

record node =
  ntype :: ntype
  props :: attrs
  children :: "ref list"
  textContent :: "string option"
  nid :: "string option"
  className :: "string option"

text \<open>
  \<^verbatim>\<open>state\<close> holds the two scale factors, which the source reads as numbers, and the font
  attributes.
\<close>

record state =
  scaleX :: real
  scaleY :: real
  font :: attrs

type_synonym ContextState = "state \<times> attrs"

datatype error = TypeError

record ctx =
  heap :: "nat \<Rightarrow> node"
  svg :: nat
  parent :: "nat option"
  groups :: "nat list"
  groupAttributes :: "attrs list"
  width :: real
  height :: real
  path :: tstring
  pen :: "real option \<times> real option"
  attributes :: attrs
  state :: state
  stateStack :: "ContextState list"
  precision :: real
  backgroundFillStyle :: string
  fontCSSString :: string
  nextElementKey :: nat
  elementRegistry :: "(string \<times> nat) list"
  classRegistry :: "(string \<times> nat list) list"

text \<open>\<^verbatim>\<open>xs[xs.length - 1]\<close>, undefined on the empty array.\<close>

definition top_of :: "'a list \<Rightarrow> 'a option" where
  "top_of xs = (if xs = [] then None else Some (last xs))"

text \<open>A string is truthy when it is defined and not empty.\<close>

definition truthy :: "string option \<Rightarrow> bool" where
  "truthy s \<longleftrightarrow> (case s of None \<Rightarrow> False | Some t \<Rightarrow> t \<noteq> [])"

definition prefix_vf :: "string \<Rightarrow> string" where
  "prefix_vf name = ''vf-'' @ name"

text \<open>\<^verbatim>\<open>Math.round(n * precision) / precision\<close>; \<^verbatim>\<open>Math.round\<close> rounds a tie upwards.\<close>

definition round_to :: "ctx \<Rightarrow> real \<Rightarrow> real" where
  "round_to c n = of_int \<lfloor>n * precision c + 1 / 2\<rfloor> / precision c"

definition createElement :: "ntype \<Rightarrow> ctx \<Rightarrow> nat \<times> node \<times> ctx" where
  "createElement ty c =
     (nextElementKey c,
      \<lparr>ntype = ty, props = [(''key'', Num (of_nat (nextElementKey c)))], children = [],
       textContent = None, nid = None, className = None\<rparr>,
      c\<lparr>nextElementKey := nextElementKey c + 1\<rparr>)"

fun applyAttributes_loop :: "ntype \<Rightarrow> attrs option \<Rightarrow> attrs \<Rightarrow> attrs \<Rightarrow> attrs" where
  "applyAttributes_loop ty groupAttrs [] ps = ps"
| "applyAttributes_loop ty groupAttrs ((attrName, v) # rest) ps =
     (if attrNamesToIgnore ty attrName then applyAttributes_loop ty groupAttrs rest ps
      else if v = Undefined then applyAttributes_loop ty groupAttrs rest ps
      else if (case groupAttrs of None \<Rightarrow> False | Some g \<Rightarrow> v = aget g attrName)
        then applyAttributes_loop ty groupAttrs rest ps
      else applyAttributes_loop ty groupAttrs rest (AList.update (propName attrName) v ps))"

definition applyAttributes :: "ctx \<Rightarrow> node \<Rightarrow> attrs \<Rightarrow> node" where
  "applyAttributes c element attrs =
     element\<lparr>props :=
       applyAttributes_loop (ntype element) (top_of (groupAttributes c)) attrs (props element)\<rparr>"

definition push_child :: "nat \<Rightarrow> ref \<Rightarrow> (nat \<Rightarrow> node) \<Rightarrow> (nat \<Rightarrow> node)" where
  "push_child p r h = h(p := (h p)\<lparr>children := children (h p) @ [r]\<rparr>)"

definition register :: "nat \<Rightarrow> node \<Rightarrow> ctx \<Rightarrow> ctx" where
  "register a element c =
     (let c = (if truthy (nid element)
               then c\<lparr>elementRegistry := AList.update (the (nid element)) a (elementRegistry c)\<rparr>
               else c)
      in if truthy (className element)
         then (let cl = the (className element);
                   existing = (case map_of (classRegistry c) cl of None \<Rightarrow> [] | Some ns \<Rightarrow> ns)
               in c\<lparr>classRegistry := AList.update cl (existing @ [a]) (classRegistry c)\<rparr>)
         else c)"

definition addElement :: "nat \<Rightarrow> node \<Rightarrow> ctx \<Rightarrow> error + ctx" where
  "addElement a element c =
     (case parent c of
        None \<Rightarrow> Inl TypeError
      | Some p \<Rightarrow>
          Inr (register a element
                (c\<lparr>heap := push_child p (Own a) ((heap c)(a := element))\<rparr>)))"


subsection \<open>Construction\<close>

definition defaultFontAttributes :: attrs where
  "defaultFontAttributes =
     [(''font-family'', lit ''Bravura, Academico, serif''),
      (''font-size'', lit ''10pt''),
      (''font-weight'', lit ''normal''),
      (''font-style'', lit ''normal'')]"

definition initial_attributes :: attrs where
  "initial_attributes =
     spread [(''stroke-width'', Num 1), (''stroke-dasharray'', lit ''none''),
             (''fill'', lit ''black''), (''stroke'', lit ''black'')]
       defaultFontAttributes"

text \<open>
  The constructor. \<open>places\<close> stands for \<^verbatim>\<open>VexFlow.RENDER_PRECISION_PLACES\<close>, a constant of
  the host library.
\<close>

definition new_ctx :: "real option \<Rightarrow> real option \<Rightarrow> nat \<Rightarrow> ctx" where
  "new_ctx w h places =
     (let w = (case w of None \<Rightarrow> 500 | Some v \<Rightarrow> v);
          h = (case h of None \<Rightarrow> 200 | Some v \<Rightarrow> v);
          root = \<lparr>ntype = Svg,
                  props = [(''key'', Num 1), (''width'', Num w), (''height'', Num h),
                           (''pointerEvents'', lit ''box-none'')],
                  children = [], textContent = None, nid = None, className = None\<rparr>
      in \<lparr>heap = (\<lambda>_. \<lparr>ntype = Svg, props = [], children = [], textContent = None,
                          nid = None, className = None\<rparr>)(1 := root),
          svg = 1, parent = Some 1, groups = [1], groupAttributes = [initial_attributes],
          width = w, height = h, path = [], pen = (None, None),
          attributes = initial_attributes,
          state = \<lparr>scaleX = 1, scaleY = 1, font = defaultFontAttributes\<rparr>,
          stateStack = [], precision = 10 ^ places, backgroundFillStyle = ''white'',
          fontCSSString = [], nextElementKey = 2, elementRegistry = [],
          classRegistry = []\<rparr>)"

subsection \<open>Paint state\<close>

definition clear :: "ctx \<Rightarrow> ctx" where
  "clear c =
     c\<lparr>heap := (heap c)(svg c := (heap c (svg c))\<lparr>children := []\<rparr>),
       elementRegistry := [], classRegistry := []\<rparr>"

definition set_attribute :: "string \<Rightarrow> jsval \<Rightarrow> ctx \<Rightarrow> ctx" where
  "set_attribute k v c = c\<lparr>attributes := AList.update k v (attributes c)\<rparr>"

definition setFillStyle :: "string \<Rightarrow> ctx \<Rightarrow> ctx" where
  "setFillStyle style c = set_attribute ''fill'' (lit style) c"

definition setBackgroundFillStyle :: "string \<Rightarrow> ctx \<Rightarrow> ctx" where
  "setBackgroundFillStyle style c = c\<lparr>backgroundFillStyle := style\<rparr>"

definition setStrokeStyle :: "string \<Rightarrow> ctx \<Rightarrow> ctx" where
  "setStrokeStyle style c = set_attribute ''stroke'' (lit style) c"

definition setShadowColor :: "string \<Rightarrow> ctx \<Rightarrow> ctx" where
  "setShadowColor color c = c"

definition setShadowBlur :: "real \<Rightarrow> ctx \<Rightarrow> ctx" where
  "setShadowBlur blur c = c"

definition setLineWidth :: "real \<Rightarrow> ctx \<Rightarrow> ctx" where
  "setLineWidth w c = set_attribute ''stroke-width'' (Num w) c"

definition setLineCap :: "string \<Rightarrow> ctx \<Rightarrow> ctx" where
  "setLineCap capType c = set_attribute ''stroke-linecap'' (lit capType) c"

definition setLineDash :: "real list \<Rightarrow> ctx \<Rightarrow> ctx" where
  "setLineDash lineDash c = set_attribute ''stroke-dasharray'' (Str (join_comma lineDash)) c"

text \<open>
  \<^verbatim>\<open>setFont\<close> hands its arguments to \<^verbatim>\<open>Font.validate\<close> and \<^verbatim>\<open>Font.toCSSString\<close> of the host
  library; the model takes their results: the validated family, size, weight (as a
  string) and style, and the CSS string.
\<close>

definition setFont :: "string \<Rightarrow> jsval \<Rightarrow> string \<Rightarrow> string \<Rightarrow> string \<Rightarrow> ctx \<Rightarrow> ctx" where
  "setFont family sz weight style css c =
     (let fontAttributes =
            [(''font-family'', lit family), (''font-size'', sz),
             (''font-weight'', lit weight), (''font-style'', lit style)]
      in c\<lparr>fontCSSString := css,
           attributes := spread (attributes c) fontAttributes,
           state := (state c)\<lparr>font := spread (font (state c)) fontAttributes\<rparr>\<rparr>)"

definition save :: "ctx \<Rightarrow> ctx" where
  "save c = c\<lparr>stateStack := stateStack c @ [(state c, attributes c)]\<rparr>"

definition restore :: "ctx \<Rightarrow> ctx" where
  "restore c =
     (case top_of (stateStack c) of
        None \<Rightarrow> c
      | Some saved \<Rightarrow>
          c\<lparr>stateStack := butlast (stateStack c), state := fst saved,
            attributes := snd saved\<rparr>)"

subsection \<open>Surface size\<close>

definition set_svg_prop :: "string \<Rightarrow> jsval \<Rightarrow> ctx \<Rightarrow> ctx" where
  "set_svg_prop k v c =
     c\<lparr>heap := (heap c)(svg c :=
          (heap c (svg c))\<lparr>props := AList.update k v (props (heap c (svg c)))\<rparr>)\<rparr>"

definition setViewBox :: "piece \<Rightarrow> piece \<Rightarrow> piece \<Rightarrow> piece \<Rightarrow> ctx \<Rightarrow> ctx" where
  "setViewBox x y w h c =
     set_svg_prop ''viewBox'' (Str [x, Lit '' '', y, Lit '' '', w, Lit '' '', h]) c"

text \<open>A quotient as a piece of a string: dividing by zero gives no finite number.\<close>

definition quotient :: "real \<Rightarrow> real \<Rightarrow> piece" where
  "quotient a b = (if b = 0 then NonFinite else Val (a / b))"

definition scale :: "real \<Rightarrow> real \<Rightarrow> ctx \<Rightarrow> ctx" where
  "scale x y c =
     (let c = c\<lparr>state := (state c)\<lparr>scaleX := scaleX (state c) * x\<rparr>\<rparr>;
          c = c\<lparr>state := (state c)\<lparr>scaleY := scaleY (state c) * y\<rparr>\<rparr>;
          visibleWidth = quotient (width c) (scaleX (state c));
          visibleHeight = quotient (height c) (scaleY (state c))
      in setViewBox (Val 0) (Val 0) visibleWidth visibleHeight c)"

definition resize :: "real \<Rightarrow> real \<Rightarrow> ctx \<Rightarrow> ctx" where
  "resize w h c =
     (let c = c\<lparr>width := w, height := h\<rparr>;
          c = set_svg_prop ''width'' (Num w) c;
          c = set_svg_prop ''height'' (Num h) c
      in scale (scaleX (state c)) (scaleY (state c)) c)"

subsection \<open>Rectangles\<close>

definition rect :: "real \<Rightarrow> real \<Rightarrow> real \<Rightarrow> real \<Rightarrow> attrs option \<Rightarrow> ctx \<Rightarrow> error + ctx" where
  "rect x y w h attrs c =
     (let (y, h) = (if h < 0 then (y + h, h * (- 1)) else (y, h));
          (a, el, c1) = createElement Rect c;
          defaultAttrs = [(''fill'', lit ''none''),
                          (''stroke-width'', aget (attributes c) ''stroke-width''),
                          (''stroke'', lit ''black'')];
          finalAttrs = spread defaultAttrs (case attrs of None \<Rightarrow> [] | Some ats \<Rightarrow> ats);
          el = el\<lparr>props := AList.update ''x'' (Num (round_to c x)) (props el)\<rparr>;
          el = el\<lparr>props := AList.update ''y'' (Num (round_to c y)) (props el)\<rparr>;
          el = el\<lparr>props := AList.update ''width'' (Num (round_to c w)) (props el)\<rparr>;
          el = el\<lparr>props := AList.update ''height'' (Num (round_to c h)) (props el)\<rparr>;
          el = applyAttributes c1 el finalAttrs
      in addElement a el c1)"

definition fillRect :: "real \<Rightarrow> real \<Rightarrow> real \<Rightarrow> real \<Rightarrow> ctx \<Rightarrow> error + ctx" where
  "fillRect x y w h c =
     rect x y w h (Some [(''fill'', aget (attributes c) ''fill''), (''stroke'', lit ''none'')]) c"

definition pointerRect :: "real \<Rightarrow> real \<Rightarrow> real \<Rightarrow> real \<Rightarrow> ctx \<Rightarrow> error + ctx" where
  "pointerRect x y w h c =
     rect x y w h (Some [(''opacity'', Num 0), (''pointer-events'', lit ''auto'')]) c"

definition clearRect :: "real \<Rightarrow> real \<Rightarrow> real \<Rightarrow> real \<Rightarrow> ctx \<Rightarrow> error + ctx" where
  "clearRect x y w h c =
     rect x y w h (Some [(''fill'', lit (backgroundFillStyle c)), (''stroke'', lit ''none'')]) c"


subsection \<open>The pending path\<close>

definition beginPath :: "ctx \<Rightarrow> ctx" where
  "beginPath c = c\<lparr>path := [], pen := (None, None)\<rparr>"

definition moveTo :: "real \<Rightarrow> real \<Rightarrow> ctx \<Rightarrow> ctx" where
  "moveTo x y c =
     (let x = round_to c x; y = round_to c y
      in c\<lparr>path := path c @ [Lit ''M'', Val x, Lit '' '', Val y], pen := (Some x, Some y)\<rparr>)"

definition lineTo :: "real \<Rightarrow> real \<Rightarrow> ctx \<Rightarrow> ctx" where
  "lineTo x y c =
     (let x = round_to c x; y = round_to c y
      in c\<lparr>path := path c @ [Lit ''L'', Val x, Lit '' '', Val y], pen := (Some x, Some y)\<rparr>)"

definition bezierCurveTo ::
  "real \<Rightarrow> real \<Rightarrow> real \<Rightarrow> real \<Rightarrow> real \<Rightarrow> real \<Rightarrow> ctx \<Rightarrow> ctx" where
  "bezierCurveTo x1 y1 x2 y2 x y c =
     (let x = round_to c x; y = round_to c y;
          x1 = round_to c x1; y1 = round_to c y1;
          x2 = round_to c x2; y2 = round_to c y2
      in c\<lparr>path := path c @ [Lit ''C'', Val x1, Lit '' '', Val y1, Lit '','', Val x2, Lit '' '',
                              Val y2, Lit '','', Val x, Lit '' '', Val y],
           pen := (Some x, Some y)\<rparr>)"

definition quadraticCurveTo :: "real \<Rightarrow> real \<Rightarrow> real \<Rightarrow> real \<Rightarrow> ctx \<Rightarrow> ctx" where
  "quadraticCurveTo x1 y1 x y c =
     (let x = round_to c x; y = round_to c y;
          x1 = round_to c x1; y1 = round_to c y1
      in c\<lparr>path := path c @ [Lit ''Q'', Val x1, Lit '' '', Val y1, Lit '','', Val x, Lit '' '',
                              Val y],
           pen := (Some x, Some y)\<rparr>)"

text \<open>The unary plus on a boolean: \<^verbatim>\<open>+true\<close> is 1 and \<^verbatim>\<open>+false\<close> is 0.\<close>

definition flag :: "bool \<Rightarrow> real" where
  "flag b = (if b then 1 else 0)"

definition full_circle :: "real \<Rightarrow> real \<Rightarrow> bool \<Rightarrow> bool" where
  "full_circle startAngle endAngle counterclockwise \<longleftrightarrow>
     (\<not> counterclockwise \<and> endAngle - startAngle \<ge> TWO_PI) \<or>
     (counterclockwise \<and> startAngle - endAngle \<ge> TWO_PI) \<or>
     normalizeAngle startAngle = normalizeAngle endAngle"

definition arc :: "real \<Rightarrow> real \<Rightarrow> real \<Rightarrow> real \<Rightarrow> real \<Rightarrow> bool \<Rightarrow> ctx \<Rightarrow> ctx" where
  "arc x y radius startAngle endAngle counterclockwise c =
     (let x0 = x + radius * cos startAngle;
          y0 = y + radius * sin startAngle;
          x0 = round_to c x0;
          y0 = round_to c y0;
          tmpStartTest = normalizeAngle startAngle;
          tmpEndTest = normalizeAngle endAngle
      in if (\<not> counterclockwise \<and> endAngle - startAngle \<ge> TWO_PI) \<or>
            (counterclockwise \<and> startAngle - endAngle \<ge> TWO_PI) \<or>
            tmpStartTest = tmpEndTest
         then
           (let x1 = x + radius * cos (startAngle + pi);
                y1 = y + radius * sin (startAngle + pi);
                x1 = round_to c x1;
                y1 = round_to c y1;
                radius = round_to c radius;
                c = c\<lparr>path := path c @
                      [Lit ''M'', Val x0, Lit '' '', Val y0, Lit '' A'', Val radius, Lit '' '',
                       Val radius, Lit '' 0 0 0 '', Val x1, Lit '' '', Val y1, Lit '' '']\<rparr>;
                c = c\<lparr>path := path c @
                      [Lit ''A'', Val radius, Lit '' '', Val radius, Lit '' 0 0 0 '', Val x0,
                       Lit '' '', Val y0]\<rparr>
            in c\<lparr>pen := (Some x0, Some y0)\<rparr>)
         else
           (let x1 = x + radius * cos endAngle;
                y1 = y + radius * sin endAngle;
                normalizedStart = tmpStartTest;
                normalizedEnd = tmpEndTest;
                large = (if \<bar>normalizedEnd - normalizedStart\<bar> < pi
                         then counterclockwise else \<not> counterclockwise);
                large = (if normalizedStart > normalizedEnd then \<not> large else large);
                sweep = (\<not> counterclockwise);
                x1 = round_to c x1;
                y1 = round_to c y1;
                radius = round_to c radius;
                c = c\<lparr>path := path c @
                      [Lit ''M'', Val x0, Lit '' '', Val y0, Lit '' A'', Val radius, Lit '' '',
                       Val radius, Lit '' 0 '', Val (flag large), Lit '' '', Val (flag sweep),
                       Lit '' '', Val x1, Lit '' '', Val y1]\<rparr>
            in c\<lparr>pen := (Some x1, Some y1)\<rparr>))"

definition closePath :: "ctx \<Rightarrow> ctx" where
  "closePath c = c\<lparr>path := path c @ [Lit ''Z'']\<rparr>"

subsection \<open>Materialising nodes\<close>

text \<open>\<^verbatim>\<open>fill\<close> writes \<^verbatim>\<open>d\<close> into the attribute object it uses, its argument when one is given.\<close>

definition fill :: "attrs option \<Rightarrow> ctx \<Rightarrow> error + ctx" where
  "fill attrs c =
     (let (a, pathElement, c1) = createElement Path c;
          attrs = (case attrs of
                     None \<Rightarrow> spread (attributes c) [(''stroke'', lit ''none'')]
                   | Some ats \<Rightarrow> ats);
          attrs = AList.update ''d'' (Str (path c)) attrs;
          pathElement = applyAttributes c1 pathElement attrs
      in addElement a pathElement c1)"

definition stroke :: "ctx \<Rightarrow> error + ctx" where
  "stroke c =
     (let (a, pathElement, c1) = createElement Path c;
          attrs = spread (attributes c) [(''fill'', lit ''none''), (''d'', Str (path c))];
          pathElement = applyAttributes c1 pathElement attrs
      in addElement a pathElement c1)"

definition fillText :: "string \<Rightarrow> real \<Rightarrow> real \<Rightarrow> ctx \<Rightarrow> error + ctx" where
  "fillText text x y c =
     (if text = [] then Inr c
      else
        (let x = round_to c x; y = round_to c y;
             (a, textElement, c1) = createElement Text c;
             textElement = textElement\<lparr>textContent := Some text\<rparr>;
             textElement = textElement\<lparr>props := AList.update ''x'' (Num x) (props textElement)\<rparr>;
             textElement = textElement\<lparr>props := AList.update ''y'' (Num y) (props textElement)\<rparr>;
             attrs = spread (attributes c) [(''stroke'', lit ''none'')];
             textElement = applyAttributes c1 textElement attrs
         in addElement a textElement c1))"

subsection \<open>Groups\<close>

text \<open>\<^verbatim>\<open>openGroup\<close> returns the group node: here its address, with the new context.\<close>

definition openGroup :: "string option \<Rightarrow> string option \<Rightarrow> ctx \<Rightarrow> error + nat \<times> ctx" where
  "openGroup cls ident c =
     (let (a, grp, c) = createElement G c;
          grp = (if truthy cls
                   then grp\<lparr>className := Some (prefix_vf (the cls)),
                              props := AList.update ''className'' (lit (prefix_vf (the cls)))
                                         (props grp)\<rparr>
                   else grp);
          grp = (if truthy ident
                   then grp\<lparr>nid := Some (prefix_vf (the ident)),
                              props := AList.update ''id'' (lit (prefix_vf (the ident)))
                                         (props grp)\<rparr>
                   else grp);
          c = c\<lparr>groups := groups c @ [a]\<rparr>
      in case parent c of
           None \<Rightarrow> Inl TypeError
         | Some p \<Rightarrow>
             (let c = c\<lparr>heap := push_child p (Own a) (heap c)\<rparr>;
                  c = c\<lparr>parent := Some a\<rparr>;
                  grp = applyAttributes c grp (attributes c);
                  c = c\<lparr>groupAttributes := groupAttributes c @
                         [spread (case top_of (groupAttributes c) of None \<Rightarrow> [] | Some g \<Rightarrow> g)
                            (attributes c)]\<rparr>;
                  c = c\<lparr>heap := (heap c)(a := grp)\<rparr>
              in Inr (a, register a grp c)))"

definition closeGroup :: "ctx \<Rightarrow> ctx" where
  "closeGroup c =
     (let c = c\<lparr>groups := butlast (groups c)\<rparr>;
          c = c\<lparr>groupAttributes := butlast (groupAttributes c)\<rparr>
      in c\<lparr>parent := top_of (groups c)\<rparr>)"

definition openRotation :: "real \<Rightarrow> real \<Rightarrow> real \<Rightarrow> ctx \<Rightarrow> error + ctx" where
  "openRotation angleDegrees x y c =
     (case openGroup None None c of
        Inl e \<Rightarrow> Inl e
      | Inr (grp, c) \<Rightarrow>
          Inr (c\<lparr>heap := (heap c)(grp := (heap c grp)\<lparr>props :=
                 AList.update ''transform''
                   (Str [Lit ''translate('', Val x, Lit '','', Val y, Lit '') rotate('',
                         Val angleDegrees, Lit '') translate(-'', Val x, Lit '',-'', Val y,
                         Lit '')''])
                   (props (heap c grp))\<rparr>)\<rparr>))"

definition closeRotation :: "ctx \<Rightarrow> ctx" where
  "closeRotation c = closeGroup c"

definition add :: "ref \<Rightarrow> ctx \<Rightarrow> error + ctx" where
  "add child c =
     (case parent c of
        None \<Rightarrow> Inl TypeError
      | Some p \<Rightarrow> Inr (c\<lparr>heap := push_child p child (heap c)\<rparr>))"


section \<open>Drawing sequences\<close>

text \<open>
  The calls a client can make on the context, and what a sequence of them does. An exception
  ends the sequence. The getters, \<^verbatim>\<open>getFont\<close> and the context's own \<^verbatim>\<open>measureText\<close> read the
  state without changing it and are not among the calls.
\<close>

datatype op =
    Clear
  | SetFillStyle string
  | SetBackgroundFillStyle string
  | SetStrokeStyle string
  | SetShadowColor string
  | SetShadowBlur real
  | SetLineWidth real
  | SetLineCap string
  | SetLineDash "real list"
  | SetFont string jsval string string string
  | Scale real real
  | SetViewBox real real real real
  | Resize real real
  | DrawRect real real real real "attrs option"
  | FillRect real real real real
  | PointerRect real real real real
  | ClearRect real real real real
  | BeginPath
  | MoveTo real real
  | LineTo real real
  | BezierCurveTo real real real real real real
  | QuadraticCurveTo real real real real
  | Arc real real real real real bool
  | ClosePath
  | Fill "attrs option"
  | Stroke
  | FillText string real real
  | Save
  | Restore
  | OpenGroup "string option" "string option"
  | CloseGroup
  | OpenRotation real real real
  | CloseRotation
  | Add ref

fun step :: "op \<Rightarrow> ctx \<Rightarrow> error + ctx" where
  "step Clear c = Inr (clear c)"
| "step (SetFillStyle s) c = Inr (setFillStyle s c)"
| "step (SetBackgroundFillStyle s) c = Inr (setBackgroundFillStyle s c)"
| "step (SetStrokeStyle s) c = Inr (setStrokeStyle s c)"
| "step (SetShadowColor s) c = Inr (setShadowColor s c)"
| "step (SetShadowBlur b) c = Inr (setShadowBlur b c)"
| "step (SetLineWidth w) c = Inr (setLineWidth w c)"
| "step (SetLineCap s) c = Inr (setLineCap s c)"
| "step (SetLineDash d) c = Inr (setLineDash d c)"
| "step (SetFont family sz weight style css) c = Inr (setFont family sz weight style css c)"
| "step (Scale x y) c = Inr (scale x y c)"
| "step (SetViewBox x y w h) c = Inr (setViewBox (Val x) (Val y) (Val w) (Val h) c)"
| "step (Resize w h) c = Inr (resize w h c)"
| "step (DrawRect x y w h ats) c = rect x y w h ats c"
| "step (FillRect x y w h) c = fillRect x y w h c"
| "step (PointerRect x y w h) c = pointerRect x y w h c"
| "step (ClearRect x y w h) c = clearRect x y w h c"
| "step BeginPath c = Inr (beginPath c)"
| "step (MoveTo x y) c = Inr (moveTo x y c)"
| "step (LineTo x y) c = Inr (lineTo x y c)"
| "step (BezierCurveTo x1 y1 x2 y2 x y) c = Inr (bezierCurveTo x1 y1 x2 y2 x y c)"
| "step (QuadraticCurveTo x1 y1 x y) c = Inr (quadraticCurveTo x1 y1 x y c)"
| "step (Arc x y r s e ccw) c = Inr (arc x y r s e ccw c)"
| "step ClosePath c = Inr (closePath c)"
| "step (Fill ats) c = fill ats c"
| "step Stroke c = stroke c"
| "step (FillText t x y) c = fillText t x y c"
| "step Save c = Inr (save c)"
| "step Restore c = Inr (restore c)"
| "step (OpenGroup cls ident) c = map_sum id snd (openGroup cls ident c)"
| "step CloseGroup c = Inr (closeGroup c)"
| "step (OpenRotation a x y) c = openRotation a x y c"
| "step CloseRotation c = Inr (closeRotation c)"
| "step (Add child) c = add child c"

fun run :: "op list \<Rightarrow> ctx \<Rightarrow> error + ctx" where
  "run [] c = Inr c"
| "run (o1 # os) c = (case step o1 c of Inl e \<Rightarrow> Inl e | Inr c' \<Rightarrow> run os c')"


section \<open>Text measurement\<close>

text \<open>
  The measuring module works on the UTF-16 code units of its strings: \<^verbatim>\<open>text.length\<close>,
  \<^verbatim>\<open>text[0]\<close> and \<^verbatim>\<open>charCodeAt\<close> count code units, while \<^verbatim>\<open>for ... of\<close> walks code points.
  A number that may be NaN is a \<^typ>\<open>real option\<close>, with \<open>None\<close> for NaN.
\<close>

type_synonym utf16 = "16 word list"

type_synonym jsnum = "real option"

definition units :: "string \<Rightarrow> utf16" where
  "units s = map (\<lambda>ch. of_nat (of_char ch)) s"

record font_metrics =
  avgCharWidth :: jsnum
  ascent :: jsnum
  descent :: jsnum
  isMusicFont :: bool

definition metrics_of :: "real \<Rightarrow> real \<Rightarrow> real \<Rightarrow> bool \<Rightarrow> font_metrics" where
  "metrics_of w a d m = \<lparr>avgCharWidth = Some w, ascent = Some a, descent = Some d, isMusicFont = m\<rparr>"

definition FONT_METRICS :: "(utf16 \<times> font_metrics) list" where
  "FONT_METRICS =
     [(units ''bravura'', metrics_of 0.25 0.8 0.2 True),
      (units ''petaluma'', metrics_of 0.25 0.8 0.2 True),
      (units ''gonville'', metrics_of 0.25 0.8 0.2 True),
      (units ''leland'', metrics_of 0.25 0.8 0.2 True),
      (units ''academico'', metrics_of 0.55 0.8 0.2 False),
      (units ''arial'', metrics_of 0.52 0.76 0.24 False),
      (units ''times new roman'', metrics_of 0.48 0.78 0.22 False),
      (units ''serif'', metrics_of 0.5 0.78 0.22 False),
      (units ''sans-serif'', metrics_of 0.52 0.76 0.24 False),
      (units ''default'', metrics_of 0.55 0.8 0.2 False)]"

definition SMUFL_GLYPH_ADVANCE_WIDTHS :: "(16 word \<times> real) list" where
  "SMUFL_GLYPH_ADVANCE_WIDTHS =
     [(0xE262, 0.996), (0xE260, 0.904), (0xE261, 0.672), (0xE263, 1.0), (0xE264, 1.652),
      (0xE26A, 1.268), (0xE280, 0.908), (0xE282, 0.716), (0xE265, 1.652), (0xE266, 1.376),
      (0xE267, 0.996), (0xE268, 0.996), (0xE269, 2.076), (0xE26C, 0.564), (0xE26D, 0.564),
      (0xE26E, 0.308), (0xE26F, 0.308), (0xE270, 0.904), (0xE275, 1.044), (0xE272, 0.76),
      (0xE0A0, 1.18), (0xE0A1, 1.18), (0xE0A2, 1.18), (0xE0A3, 1.18), (0xE0A4, 1.18),
      (0xE0A9, 1.328), (0xE0AA, 1.328), (0xE0AB, 1.12), (0xE0D8, 1.128), (0xE0D9, 1.128),
      (0xE0DB, 0.996), (0xE0BC, 1.312), (0xE0BD, 1.312), (0xE0BE, 1.12), (0xE100, 1.688),
      (0xE101, 1.688), (0xE102, 1.552), (0xE103, 1.552), (0xE050, 2.684), (0xE05C, 2.536),
      (0xE062, 2.756), (0xE06A, 1.14), (0xE06B, 1.14), (0xE06D, 1.636), (0xE06E, 1.084),
      (0xE07A, 1.792), (0xE07B, 1.692), (0xE07C, 1.836), (0xE080, 1.688), (0xE081, 1.084),
      (0xE082, 1.44), (0xE083, 1.356), (0xE084, 1.52), (0xE085, 1.356), (0xE086, 1.44),
      (0xE087, 1.316), (0xE088, 1.44), (0xE089, 1.44), (0xE08A, 2.0), (0xE08B, 2.0),
      (0xE08C, 1.0), (0xE08E, 0.752), (0xE097, 1.64), (0xE098, 1.64), (0xE4E1, 2.352),
      (0xE4E2, 1.176), (0xE4E3, 1.0), (0xE4E4, 1.0), (0xE4E5, 1.0), (0xE4E6, 0.752),
      (0xE4E7, 1.0), (0xE4E8, 1.112), (0xE4E9, 1.352), (0xE4EA, 1.496), (0xE4EB, 1.652),
      (0xE4EC, 1.892), (0xE4ED, 2.132), (0xE4EE, 2.288), (0xE240, 0.796), (0xE241, 1.0),
      (0xE242, 0.796), (0xE243, 1.0), (0xE244, 0.896), (0xE245, 1.0), (0xE246, 0.896),
      (0xE247, 1.0), (0xE248, 0.896), (0xE249, 1.0), (0xE24A, 0.896), (0xE24B, 1.0),
      (0xE24C, 0.896), (0xE24D, 1.0), (0xE24E, 0.896), (0xE24F, 1.0), (0xE250, 0.748),
      (0xE251, 1.08), (0xE252, 0.748), (0xE253, 1.08), (0xE254, 0.748), (0xE255, 1.08),
      (0xE4A0, 0.668), (0xE4A1, 0.668), (0xE4A2, 0.472), (0xE4A3, 0.472), (0xE4A4, 0.472),
      (0xE4A5, 0.472), (0xE4A6, 0.472), (0xE4A7, 0.472), (0xE4A8, 0.388), (0xE4A9, 0.388),
      (0xE4AA, 0.532), (0xE4AB, 0.532), (0xE4AC, 0.668), (0xE4AD, 0.668), (0xE4AE, 0.668),
      (0xE4AF, 0.668), (0xE4B0, 0.668), (0xE4B1, 0.668), (0xE4B2, 0.472), (0xE4B3, 0.472),
      (0xE4B4, 0.472), (0xE4B5, 0.472), (0xE4B6, 0.668), (0xE4B7, 0.668), (0xE4B8, 0.668),
      (0xE4B9, 0.668), (0xE520, 1.164), (0xE521, 1.236), (0xE522, 1.264), (0xE523, 1.168),
      (0xE524, 0.936), (0xE525, 1.236), (0xE526, 0.868), (0xE560, 1.804), (0xE566, 1.384),
      (0xE567, 1.384), (0xE568, 1.5), (0xE569, 1.5), (0xE56C, 1.132), (0xE56D, 1.544),
      (0xE56E, 2.0), (0xE587, 1.384), (0xE4C0, 1.896), (0xE4C1, 1.896), (0xE4C2, 1.556),
      (0xE4C3, 1.556), (0xE4C4, 2.32), (0xE4C5, 2.32), (0xE4C6, 2.32), (0xE4C7, 2.32),
      (0xE4D1, 1.0), (0xE4D2, 0.768), (0xE4D3, 0.528), (0xE4D5, 1.24), (0xE4D6, 1.24),
      (0xE040, 0.5), (0xE046, 1.624), (0xE047, 1.808), (0xE048, 2.572), (0xE030, 0.16),
      (0xE031, 0.64), (0xE032, 0.64), (0xE1E7, 0.4), (0xE210, 0.0), (0xE1FD, 0.3),
      (0xE1FE, 0.6), (0xE1FF, 0.9), (0xE880, 0.708), (0xE881, 0.464), (0xE882, 0.616),
      (0xE883, 0.58), (0xE884, 0.652), (0xE885, 0.58), (0xE886, 0.616), (0xE887, 0.56),
      (0xE888, 0.616), (0xE889, 0.616), (0xE88A, 0.32), (0xE650, 2.856), (0xE655, 1.364),
      (0xE220, 0.952), (0xE221, 0.952), (0xE222, 0.952), (0xE223, 0.952), (0xE224, 0.952),
      (0xE225, 1.064), (0xE226, 1.56), (0xE227, 2.064), (0xE228, 2.56), (0xE610, 0.84),
      (0xE612, 0.752), (0xE614, 0.804), (0xE5E0, 1.056), (0xE5D0, 1.436), (0xE5D1, 1.224),
      (0xE510, 1.424), (0xE511, 1.076), (0xE512, 1.176), (0xE513, 2.272), (0xE514, 1.924),
      (0xE515, 2.024), (0xE0F5, 0.38), (0xE0F6, 0.38)]"

definition isSmuflGlyph :: "utf16 \<Rightarrow> bool" where
  "isSmuflGlyph char = (case char of [] \<Rightarrow> False | code # _ \<Rightarrow> code \<ge> 0xE000 \<and> code \<le> 0xF8FF)"

text \<open>Every key of the table is a string of one code unit.\<close>

definition getSmuflGlyphWidth :: "utf16 \<Rightarrow> real option" where
  "getSmuflGlyphWidth char =
     (case char of [code] \<Rightarrow> map_of SMUFL_GLYPH_ADVANCE_WIDTHS code | _ \<Rightarrow> None)"

text \<open>
  \<^verbatim>\<open>toLowerCase\<close>, as far as a lookup in \<^const>\<open>FONT_METRICS\<close> can tell: the capital Latin
  letters and the Kelvin sign are the only characters whose lower case is ASCII text, and
  every other character is left as it is.
\<close>

definition toLowerCase :: "utf16 \<Rightarrow> utf16" where
  "toLowerCase s =
     map (\<lambda>u. if 0x41 \<le> u \<and> u \<le> 0x5A then u + 0x20 else if u = 0x212A then 0x6B else u) s"

definition is_space :: "16 word \<Rightarrow> bool" where
  "is_space u \<longleftrightarrow>
     (0x09 \<le> u \<and> u \<le> 0x0D) \<or> u = 0x20 \<or> u = 0xA0 \<or> u = 0x1680 \<or>
     (0x2000 \<le> u \<and> u \<le> 0x200A) \<or> u = 0x2028 \<or> u = 0x2029 \<or> u = 0x202F \<or>
     u = 0x205F \<or> u = 0x3000 \<or> u = 0xFEFF"

definition trim :: "utf16 \<Rightarrow> utf16" where
  "trim s = rev (dropWhile is_space (rev (dropWhile is_space s)))"

text \<open>\<^verbatim>\<open>s.split(',')[0]\<close>\<close>

definition before_comma :: "utf16 \<Rightarrow> utf16" where
  "before_comma s = takeWhile (\<lambda>u. u \<noteq> 0x2C) s"

text \<open>
  \<^const>\<open>FONT_METRICS\<close> is a plain object too: at a name that \<^verbatim>\<open>Object.prototype\<close> defines the
  lookup yields that member, which is not nullish and has none of the metric fields.
\<close>

definition getFontMetrics :: "utf16 \<Rightarrow> font_metrics" where
  "getFontMetrics fontFamily =
     (let normalizedFamily = trim (before_comma (toLowerCase fontFamily))
      in case map_of FONT_METRICS normalizedFamily of
           Some m \<Rightarrow> m
         | None \<Rightarrow>
             if normalizedFamily \<in> set (map units object_prototype_names)
             then \<lparr>avgCharWidth = None, ascent = None, descent = None, isMusicFont = False\<rparr>
             else the (map_of FONT_METRICS (units ''default'')))"

text \<open>The characters that \<^verbatim>\<open>for (const char of text)\<close> visits: a surrogate pair is one.\<close>

fun code_points :: "utf16 \<Rightarrow> utf16 list" where
  "code_points [] = []"
| "code_points [u] = [[u]]"
| "code_points (u # v # rest) =
     (if 0xD800 \<le> u \<and> u \<le> 0xDBFF \<and> 0xDC00 \<le> v \<and> v \<le> 0xDFFF
      then [u, v] # code_points rest
      else [u] # code_points (v # rest))"

fun measureSmuflText_loop :: "utf16 list \<Rightarrow> real \<Rightarrow> real \<Rightarrow> real" where
  "measureSmuflText_loop [] fontSizeInPixels totalWidth = totalWidth"
| "measureSmuflText_loop (char # rest) fontSizeInPixels totalWidth =
     measureSmuflText_loop rest fontSizeInPixels
       (if isSmuflGlyph char
        then (case getSmuflGlyphWidth char of
                Some glyphWidth \<Rightarrow> totalWidth + glyphWidth * (fontSizeInPixels / 4)
              | None \<Rightarrow> totalWidth + 0.25 * fontSizeInPixels)
        else totalWidth + 0.55 * fontSizeInPixels)"

definition measureSmuflText :: "utf16 \<Rightarrow> real \<Rightarrow> real" where
  "measureSmuflText text fontSizeInPixels =
     measureSmuflText_loop (code_points text) fontSizeInPixels 0"

text \<open>A product with a factor that may be undefined.\<close>

definition times_js :: "real \<Rightarrow> jsnum \<Rightarrow> jsnum" where
  "times_js a b = (case b of None \<Rightarrow> None | Some v \<Rightarrow> Some (a * v))"

record MockTextMetrics =
  tm_width :: jsnum
  actualBoundingBoxLeft :: jsnum
  actualBoundingBoxRight :: jsnum
  actualBoundingBoxAscent :: jsnum
  actualBoundingBoxDescent :: jsnum
  fontBoundingBoxAscent :: jsnum
  fontBoundingBoxDescent :: jsnum
  alphabeticBaseline :: jsnum
  emHeightAscent :: jsnum
  emHeightDescent :: jsnum

text \<open>
  \<^verbatim>\<open>MockCanvasContext.measureText\<close>. The two regular-expression parsers of the font string,
  \<^verbatim>\<open>parseFontSize\<close> and \<^verbatim>\<open>parseFontFamily\<close>, are not modelled: \<open>fontSize\<close> and \<open>fontFamily\<close>
  are what they return for the context's current font.
\<close>

definition measureText :: "real \<Rightarrow> utf16 \<Rightarrow> utf16 \<Rightarrow> MockTextMetrics" where
  "measureText fontSize fontFamily text =
     (let metrics = getFontMetrics fontFamily;
          w = (if isMusicFont metrics \<and> length text > 0 \<and> isSmuflGlyph (take 1 text)
               then Some (measureSmuflText text fontSize)
               else times_js (of_nat (length text) * fontSize) (avgCharWidth metrics));
          asc = times_js fontSize (ascent metrics);
          desc = times_js fontSize (descent metrics)
      in \<lparr>tm_width = w, actualBoundingBoxLeft = Some 0, actualBoundingBoxRight = w,
          actualBoundingBoxAscent = asc, actualBoundingBoxDescent = desc,
          fontBoundingBoxAscent = asc, fontBoundingBoxDescent = desc,
          alphabeticBaseline = Some 0, emHeightAscent = asc, emHeightDescent = desc\<rparr>)"


section \<open>Notions used in the properties\<close>

text \<open>
  How deep a sequence of calls is inside \<^verbatim>\<open>save\<close>/\<^verbatim>\<open>restore\<close> pairs, starting at depth \<open>d\<close>;
  \<open>None\<close> when a \<^verbatim>\<open>restore\<close> has no \<^verbatim>\<open>save\<close> to match. A sequence is balanced when every
  \<^verbatim>\<open>save\<close> in it is matched by a later \<^verbatim>\<open>restore\<close> in it and the other way round.
\<close>

primrec nesting :: "op list \<Rightarrow> nat \<Rightarrow> nat option" where
  "nesting [] d = Some d"
| "nesting (o1 # os) d =
     (case o1 of
        Save \<Rightarrow> nesting os (Suc d)
      | Restore \<Rightarrow> (case d of 0 \<Rightarrow> None | Suc d' \<Rightarrow> nesting os d')
      | _ \<Rightarrow> nesting os d)"

definition balanced :: "op list \<Rightarrow> bool" where
  "balanced ops \<longleftrightarrow> nesting ops 0 = Some 0"


text \<open>The names under which the context keeps paint state.\<close>

definition paint_keys :: "string list" where
  "paint_keys =
     [''stroke-width'', ''stroke-dasharray'', ''fill'', ''stroke'', ''font-family'',
      ''font-size'', ''font-weight'', ''font-style'', ''stroke-linecap'']"

definition paint_attrs :: "attrs \<Rightarrow> bool" where
  "paint_attrs a \<longleftrightarrow> distinct (map fst a) \<and> set (map fst a) \<subseteq> set paint_keys"

definition consistent :: "ctx \<Rightarrow> bool" where
  "consistent c \<longleftrightarrow>
     paint_attrs (attributes c) \<and>
     list_all paint_attrs (groupAttributes c) \<and>
     list_all (\<lambda>saved. paint_attrs (snd saved)) (stateStack c) \<and>
     length (groupAttributes c) = length (groups c) \<and>
     parent c = top_of (groups c) \<and>
     list_all (\<lambda>g. g < nextElementKey c) (groups c) \<and>
     0 < precision c"

text \<open>What a call that appends one leaf node leaves alone.\<close>

definition leaf_frame :: "ctx \<Rightarrow> ctx \<Rightarrow> bool" where
  "leaf_frame c c' \<longleftrightarrow>
     svg c' = svg c \<and> parent c' = parent c \<and> groups c' = groups c \<and>
     groupAttributes c' = groupAttributes c \<and> path c' = path c \<and> pen c' = pen c \<and>
     attributes c' = attributes c \<and> state c' = state c \<and> stateStack c' = stateStack c \<and>
     precision c' = precision c \<and> nextElementKey c' = nextElementKey c + 1"


text \<open>An attribute object in the SVG naming: none of its names is a name of a prop.\<close>

definition svg_style :: "attrs \<Rightarrow> bool" where
  "svg_style a \<longleftrightarrow> set (map fst a) \<inter> set (map snd PROP_MAP) = {}"

text \<open>A node as \<^verbatim>\<open>createElement\<close> makes it, with its props and text content filled in.\<close>

definition new_node :: "ntype \<Rightarrow> attrs \<Rightarrow> string option \<Rightarrow> node" where
  "new_node ty ps tc =
     \<lparr>ntype = ty, props = ps, children = [], textContent = tc, nid = None, className = None\<rparr>"

text \<open>
  The calls that append one leaf node, and the attribute argument such a call was given.
\<close>

definition leaf_op :: "op \<Rightarrow> bool" where
  "leaf_op o1 =
     (case o1 of
        DrawRect x y w h ats \<Rightarrow> True
      | FillRect x y w h \<Rightarrow> True
      | PointerRect x y w h \<Rightarrow> True
      | ClearRect x y w h \<Rightarrow> True
      | Fill ats \<Rightarrow> True
      | Stroke \<Rightarrow> True
      | FillText t x y \<Rightarrow> t \<noteq> []
      | _ \<Rightarrow> False)"

definition explicit_attrs :: "op \<Rightarrow> attrs" where
  "explicit_attrs o1 =
     (case o1 of
        DrawRect x y w h ats \<Rightarrow> (case ats of None \<Rightarrow> [] | Some a \<Rightarrow> a)
      | Fill ats \<Rightarrow> (case ats of None \<Rightarrow> [] | Some a \<Rightarrow> a)
      | _ \<Rightarrow> [])"

section \<open>Basic facts\<close>

lemma count_char_append: "count_char ch (xs @ ys) = count_char ch xs + count_char ch ys"
  by (induction ch xs rule: count_char.induct) simp_all

lemma new_ctx_sel:
  "svg (new_ctx w h pl) = 1"
  "parent (new_ctx w h pl) = Some 1"
  "groups (new_ctx w h pl) = [1]"
  "groupAttributes (new_ctx w h pl) = [initial_attributes]"
  "path (new_ctx w h pl) = []"
  "pen (new_ctx w h pl) = (None, None)"
  "attributes (new_ctx w h pl) = initial_attributes"
  "stateStack (new_ctx w h pl) = []"
  "precision (new_ctx w h pl) = 10 ^ pl"
  "nextElementKey (new_ctx w h pl) = 2"
  "elementRegistry (new_ctx w h pl) = []"
  "classRegistry (new_ctx w h pl) = []"
  "children (heap (new_ctx w h pl) 1) = []"
  by (simp_all add: new_ctx_def Let_def)

lemma register_sel:
  "heap (register a el c) = heap c"
  "svg (register a el c) = svg c"
  "parent (register a el c) = parent c"
  "groups (register a el c) = groups c"
  "groupAttributes (register a el c) = groupAttributes c"
  "path (register a el c) = path c"
  "pen (register a el c) = pen c"
  "attributes (register a el c) = attributes c"
  "state (register a el c) = state c"
  "stateStack (register a el c) = stateStack c"
  "precision (register a el c) = precision c"
  "nextElementKey (register a el c) = nextElementKey c"
  by (simp_all add: register_def Let_def)

lemma openGroup_result:
  assumes "parent c = Some p"
  shows "\<exists>c'. openGroup cls ident c = Inr (nextElementKey c, c') \<and>
           svg c' = svg c \<and> parent c' = Some (nextElementKey c) \<and>
           groups c' = groups c @ [nextElementKey c] \<and>
           groupAttributes c' = groupAttributes c @
             [spread (case top_of (groupAttributes c) of None \<Rightarrow> [] | Some g \<Rightarrow> g)
                (attributes c)] \<and>
           path c' = path c \<and> pen c' = pen c \<and> attributes c' = attributes c \<and>
           state c' = state c \<and> stateStack c' = stateStack c \<and>
           precision c' = precision c \<and> nextElementKey c' = nextElementKey c + 1"
  using assms
  by (simp add: openGroup_def createElement_def Let_def register_sel)

section \<open>The pending path: arcs\<close>

lemma arc_full_circle:
  assumes "full_circle s e ccw"
  shows "arc x y r s e ccw c =
     c\<lparr>path := path c @
           [Lit ''M'', Val (round_to c (x + r * cos s)), Lit '' '',
            Val (round_to c (y + r * sin s)),
            Lit '' A'', Val (round_to c r), Lit '' '', Val (round_to c r), Lit '' 0 0 0 '',
            Val (round_to c (x - r * cos s)), Lit '' '', Val (round_to c (y - r * sin s)),
            Lit '' '',
            Lit ''A'', Val (round_to c r), Lit '' '', Val (round_to c r), Lit '' 0 0 0 '',
            Val (round_to c (x + r * cos s)), Lit '' '', Val (round_to c (y + r * sin s))],
         pen := (Some (round_to c (x + r * cos s)), Some (round_to c (y + r * sin s)))\<rparr>"
  using assms unfolding arc_def full_circle_def Let_def round_to_def
  by simp

lemma full_circle_whole_turn: "full_circle 0 (2 * pi) False"
  by (simp add: full_circle_def TWO_PI_def)

lemma full_circle_turn: "full_circle s (s + TWO_PI) False"
  by (simp add: full_circle_def)

text \<open>
  C3. \<^verbatim>\<open>arc(cx, cy, r, 0, 2\<pi>, false)\<close> takes the full-circle branch, and so does every call whose
  span in the direction of drawing is at least a full turn or whose normalized start and
  end angles are equal. Such a call appends to the pending path one move to the rounded point
  at the start angle and two elliptical arcs, the first to the rounded point opposite the
  start angle (the start point mirrored in the centre), the second back to the start point:
  the path gains exactly one \<open>M\<close> and exactly two \<open>A\<close>.
\<close>

theorem arc_full_circle_two_arcs:
  "full_circle 0 (2 * pi) False \<and>
   (full_circle s e ccw \<longrightarrow>
      path (arc x y r s e ccw c) = path c @
        [Lit ''M'', Val (round_to c (x + r * cos s)), Lit '' '',
         Val (round_to c (y + r * sin s)),
         Lit '' A'', Val (round_to c r), Lit '' '', Val (round_to c r), Lit '' 0 0 0 '',
         Val (round_to c (x - r * cos s)), Lit '' '', Val (round_to c (y - r * sin s)),
         Lit '' '',
         Lit ''A'', Val (round_to c r), Lit '' '', Val (round_to c r), Lit '' 0 0 0 '',
         Val (round_to c (x + r * cos s)), Lit '' '', Val (round_to c (y + r * sin s))] \<and>
      count_char CHR ''M'' (path (arc x y r s e ccw c)) = count_char CHR ''M'' (path c) + 1 \<and>
      count_char CHR ''A'' (path (arc x y r s e ccw c)) = count_char CHR ''A'' (path c) + 2)"
  by (simp add: full_circle_whole_turn arc_full_circle count_char_append)

theorem arc_full_circle_two_arcs_witness:
  "full_circle 0 (2 * pi) False \<and>
   path (arc 50 50 25 0 (2 * pi) False (new_ctx None None 3)) =
     [Lit ''M'', Val 75, Lit '' '', Val 50, Lit '' A'', Val 25, Lit '' '', Val 25,
      Lit '' 0 0 0 '', Val 25, Lit '' '', Val 50, Lit '' '',
      Lit ''A'', Val 25, Lit '' '', Val 25, Lit '' 0 0 0 '', Val 75, Lit '' '', Val 50] \<and>
   count_char CHR ''M'' (path (arc 50 50 25 0 (2 * pi) False (new_ctx None None 3))) = 1 \<and>
   count_char CHR ''A'' (path (arc 50 50 25 0 (2 * pi) False (new_ctx None None 3))) = 2"
  using arc_full_circle_two_arcs [of 0 "2 * pi" False 50 50 25 "new_ctx None None 3"]
  by (simp add: new_ctx_sel round_to_def)

text \<open>
  C10. In the full-circle branch the result does not depend on the direction flag or on the
  end angle: it is what the clockwise call over one whole turn from the same start angle
  gives. Both arc commands carry the literal flags \<open>0 0\<close> (after the rotation \<open>0\<close>), and
  the pen ends at the rounded point at the start angle.
\<close>

theorem arc_full_circle_flags_and_pen:
  "full_circle s e ccw \<longrightarrow>
     arc x y r s (s + TWO_PI) False c = arc x y r s e ccw c \<and>
     length (path (arc x y r s e ccw c)) = length (path c) + 21 \<and>
     path (arc x y r s e ccw c) ! (length (path c) + 8) = Lit '' 0 0 0 '' \<and>
     path (arc x y r s e ccw c) ! (length (path c) + 17) = Lit '' 0 0 0 '' \<and>
     pen (arc x y r s e ccw c) =
       (Some (round_to c (x + r * cos s)), Some (round_to c (y + r * sin s)))"
  by (simp add: arc_full_circle full_circle_turn nth_append)

theorem arc_full_circle_flags_and_pen_witness:
  "full_circle pi (- pi) True \<and>
   arc 50 50 25 pi (pi + TWO_PI) False (new_ctx None None 3) =
     arc 50 50 25 pi (- pi) True (new_ctx None None 3) \<and>
   path (arc 50 50 25 pi (- pi) True (new_ctx None None 3)) ! 8 = Lit '' 0 0 0 '' \<and>
   path (arc 50 50 25 pi (- pi) True (new_ctx None None 3)) ! 17 = Lit '' 0 0 0 '' \<and>
   pen (arc 50 50 25 pi (- pi) True (new_ctx None None 3)) = (Some 25, Some 50)"
proof -
  have fc: "full_circle pi (- pi) True"
    by (simp add: full_circle_def TWO_PI_def)
  show ?thesis
    using fc arc_full_circle_flags_and_pen [of pi "- pi" True 50 50 25 "new_ctx None None 3"]
    by (simp add: new_ctx_sel round_to_def)
qed

section \<open>Clearing\<close>

text \<open>
  C1, as the code has it. After any sequence of drawing operations, \<^verbatim>\<open>clear()\<close> leaves the
  root node with an empty child list and both registries empty. It does not touch the
  pending path, the pen, the group stack, the stack of effective attributes or the insertion
  point: they are what they were before the call.
\<close>

theorem clear_empties_tree_and_registries:
  "children (heap (clear c) (svg (clear c))) = [] \<and>
   elementRegistry (clear c) = [] \<and> classRegistry (clear c) = [] \<and>
   path (clear c) = path c \<and> pen (clear c) = pen c \<and>
   groups (clear c) = groups c \<and> groupAttributes (clear c) = groupAttributes c \<and>
   parent (clear c) = parent c"
  by (simp add: clear_def)

text \<open>
  After \<^verbatim>\<open>openGroup(); moveTo(1, 2); clear()\<close> on a fresh context the pending path still holds
  the move, the pen is at (1, 2), the group is still on the stack and it, not the root, is
  the insertion point.
\<close>

theorem clear_keeps_path_and_groups:
  "map_sum id path (run [OpenGroup None None, MoveTo 1 2, Clear] (new_ctx None None 3)) =
     Inr [Lit ''M'', Val 1, Lit '' '', Val 2] \<and>
   map_sum id pen (run [OpenGroup None None, MoveTo 1 2, Clear] (new_ctx None None 3)) =
     Inr (Some 1, Some 2) \<and>
   map_sum id groups (run [OpenGroup None None, MoveTo 1 2, Clear] (new_ctx None None 3)) =
     Inr [1, 2] \<and>
   map_sum id parent (run [OpenGroup None None, MoveTo 1 2, Clear] (new_ctx None None 3)) =
     Inr (Some 2) \<and>
   map_sum id svg (run [OpenGroup None None, MoveTo 1 2, Clear] (new_ctx None None 3)) = Inr 1"
  using openGroup_result [of "new_ctx None None 3" 1 None None]
  by (auto simp add: new_ctx_sel clear_def moveTo_def round_to_def Let_def)

section \<open>Measuring text\<close>

lemma measureSmuflText_loop_sum:
  "measureSmuflText_loop chars px acc =
     acc
     + (\<Sum>ch \<leftarrow> filter (\<lambda>ch. isSmuflGlyph ch \<and> getSmuflGlyphWidth ch \<noteq> None) chars.
          the (getSmuflGlyphWidth ch) * (px / 4))
     + (\<Sum>ch \<leftarrow> filter (\<lambda>ch. isSmuflGlyph ch \<and> getSmuflGlyphWidth ch = None) chars.
          0.25 * px)
     + (\<Sum>ch \<leftarrow> filter (\<lambda>ch. \<not> isSmuflGlyph ch) chars. 0.55 * px)"
  by (induction chars arbitrary: acc) (auto split: option.splits)

lemma getFontMetrics_Bravura:
  "getFontMetrics (units ''Bravura, Academico'') = metrics_of 0.25 0.8 0.2 True"
  by (simp add: getFontMetrics_def units_def toLowerCase_def before_comma_def trim_def
      is_space_def FONT_METRICS_def)

lemma getSmuflGlyphWidth_sharp: "getSmuflGlyphWidth [0xE262] = Some 0.996"
  by (simp add: getSmuflGlyphWidth_def SMUFL_GLYPH_ADVANCE_WIDTHS_def)

lemma getSmuflGlyphWidth_E000: "getSmuflGlyphWidth [0xE000] = None"
  by (simp add: getSmuflGlyphWidth_def SMUFL_GLYPH_ADVANCE_WIDTHS_def)

text \<open>
  C7. When the family is a music font and the first code unit of the text lies in
  U+E000..U+F8FF, the width is the sum over the characters of the text: a character of that
  range that the advance-width table holds counts its advance times a quarter of the pixel
  size, a character of that range that the table lacks counts 0.25 of the pixel size, and
  any other character counts 0.55 of it. Whatever branch is taken, every ascent field is
  the pixel size times the family's ascent ratio and every descent field the pixel size
  times its descent ratio.
\<close>

theorem measureText_music_font:
  "(isMusicFont (getFontMetrics fam) \<and> text \<noteq> [] \<and> isSmuflGlyph (take 1 text) \<longrightarrow>
      tm_width (measureText px fam text) = Some (
         (\<Sum>ch \<leftarrow> filter (\<lambda>ch. isSmuflGlyph ch \<and> getSmuflGlyphWidth ch \<noteq> None)
                   (code_points text).
            the (getSmuflGlyphWidth ch) * (px / 4))
       + (\<Sum>ch \<leftarrow> filter (\<lambda>ch. isSmuflGlyph ch \<and> getSmuflGlyphWidth ch = None)
                   (code_points text).
            0.25 * px)
       + (\<Sum>ch \<leftarrow> filter (\<lambda>ch. \<not> isSmuflGlyph ch) (code_points text). 0.55 * px)))
   \<and> actualBoundingBoxAscent (measureText px fam text) = times_js px (ascent (getFontMetrics fam))
   \<and> fontBoundingBoxAscent (measureText px fam text) = times_js px (ascent (getFontMetrics fam))
   \<and> emHeightAscent (measureText px fam text) = times_js px (ascent (getFontMetrics fam))
   \<and> actualBoundingBoxDescent (measureText px fam text) =
       times_js px (descent (getFontMetrics fam))
   \<and> fontBoundingBoxDescent (measureText px fam text) =
       times_js px (descent (getFontMetrics fam))
   \<and> emHeightDescent (measureText px fam text) = times_js px (descent (getFontMetrics fam))"
  by (simp add: measureText_def Let_def measureSmuflText_def measureSmuflText_loop_sum)

theorem measureText_music_font_witness:
  "isMusicFont (getFontMetrics (units ''Bravura, Academico'')) \<and>
   [0xE262, 0xE000, 0x41] \<noteq> ([] :: utf16) \<and>
   isSmuflGlyph (take 1 [0xE262, 0xE000, 0x41]) \<and>
   tm_width (measureText 40 (units ''Bravura, Academico'') [0xE262, 0xE000, 0x41]) =
     Some 41.96 \<and>
   actualBoundingBoxAscent (measureText 40 (units ''Bravura, Academico'')
     [0xE262, 0xE000, 0x41]) = Some 32 \<and>
   actualBoundingBoxDescent (measureText 40 (units ''Bravura, Academico'')
     [0xE262, 0xE000, 0x41]) = Some 8"
  using measureText_music_font [of "units ''Bravura, Academico''" "[0xE262, 0xE000, 0x41]" 40]
  by (simp add: getFontMetrics_Bravura getSmuflGlyphWidth_sharp getSmuflGlyphWidth_E000
      metrics_of_def isSmuflGlyph_def times_js_def del: not_None_eq)


section \<open>What the operations leave alone\<close>

lemma addElement_sel:
  assumes "addElement a el c = Inr c'"
  shows "svg c' = svg c" "parent c' = parent c" "groups c' = groups c"
    "groupAttributes c' = groupAttributes c" "path c' = path c" "pen c' = pen c"
    "attributes c' = attributes c" "state c' = state c" "stateStack c' = stateStack c"
    "precision c' = precision c" "nextElementKey c' = nextElementKey c"
    "heap c' = push_child (the (parent c)) (Own a) ((heap c)(a := el))"
  using assms by (auto simp add: addElement_def register_sel split: option.splits)

lemma openGroup_sel:
  assumes "openGroup cls ident c = Inr (a, c')"
  shows "svg c' = svg c" "parent c' = Some (nextElementKey c)"
    "groups c' = groups c @ [nextElementKey c]"
    "groupAttributes c' = groupAttributes c @
       [spread (case top_of (groupAttributes c) of None \<Rightarrow> [] | Some g \<Rightarrow> g) (attributes c)]"
    "path c' = path c" "pen c' = pen c"
    "attributes c' = attributes c" "state c' = state c" "stateStack c' = stateStack c"
    "precision c' = precision c" "nextElementKey c' = nextElementKey c + 1"
    "a = nextElementKey c" "parent c \<noteq> None"
  using assms
  by (auto simp add: openGroup_def createElement_def Let_def register_sel split: option.splits)

lemma rect_frame: "rect x y w h ats c = Inr c' \<Longrightarrow> leaf_frame c c'"
  by (auto simp: rect_def createElement_def Let_def leaf_frame_def
      split: prod.splits if_splits dest: addElement_sel)

lemma fill_frame: "fill ats c = Inr c' \<Longrightarrow> leaf_frame c c'"
  by (auto simp: fill_def createElement_def Let_def leaf_frame_def
      split: prod.splits dest: addElement_sel)

lemma stroke_frame: "stroke c = Inr c' \<Longrightarrow> leaf_frame c c'"
  by (auto simp: stroke_def createElement_def Let_def leaf_frame_def
      split: prod.splits dest: addElement_sel)

lemma fillText_frame: "fillText t x y c = Inr c' \<Longrightarrow> t \<noteq> [] \<Longrightarrow> leaf_frame c c'"
  by (auto simp: fillText_def createElement_def Let_def leaf_frame_def
      split: prod.splits dest: addElement_sel)

lemma leaf_frame_consistent: "leaf_frame c c' \<Longrightarrow> consistent c \<Longrightarrow> consistent c'"
  by (auto simp: leaf_frame_def consistent_def list_all_iff)

lemma paint_attrs_update:
  "paint_attrs a \<Longrightarrow> k \<in> set paint_keys \<Longrightarrow> paint_attrs (AList.update k v a)"
  by (auto simp: paint_attrs_def distinct_update dom_update)

lemma paint_attrs_spread:
  "paint_attrs a \<Longrightarrow> set (map fst b) \<subseteq> set paint_keys \<Longrightarrow> paint_attrs (spread a b)"
  unfolding spread_def
  by (induction b arbitrary: a) (auto simp: paint_attrs_update)

lemma paint_attrs_Nil: "paint_attrs []"
  by (simp add: paint_attrs_def)

lemma top_of_append: "top_of (xs @ [x]) = Some x"
  by (simp add: top_of_def)

lemma top_of_all: "list_all P xs \<Longrightarrow> top_of xs = Some x \<Longrightarrow> P x"
  by (auto simp: top_of_def list_all_iff split: if_splits)

lemma openGroup_consistent:
  assumes "openGroup cls ident c = Inr (a, c')" "consistent c"
  shows "consistent c'"
proof -
  note s = openGroup_sel [OF assms(1)]
  have pa: "paint_attrs (attributes c)" and ga: "list_all paint_attrs (groupAttributes c)"
    using assms(2) by (auto simp: consistent_def)
  have "paint_attrs (case top_of (groupAttributes c) of None \<Rightarrow> [] | Some g \<Rightarrow> g)"
    using ga by (auto simp: paint_attrs_Nil split: option.splits dest: top_of_all)
  moreover have "set (map fst (attributes c)) \<subseteq> set paint_keys"
    using pa by (simp add: paint_attrs_def)
  ultimately have "paint_attrs (spread (case top_of (groupAttributes c) of None \<Rightarrow> [] | Some g \<Rightarrow> g)
      (attributes c))"
    by (rule paint_attrs_spread)
  then show ?thesis
    using assms(2) unfolding consistent_def s
    by (auto simp: top_of_append list_all_iff)
qed

lemma closeGroup_consistent: "consistent c \<Longrightarrow> consistent (closeGroup c)"
  by (auto simp: closeGroup_def Let_def consistent_def list_all_iff dest: in_set_butlastD)

lemma restore_consistent: "consistent c \<Longrightarrow> consistent (restore c)"
  by (auto simp: restore_def consistent_def list_all_iff top_of_def
      split: option.splits if_splits dest: in_set_butlastD)

lemma save_consistent: "consistent c \<Longrightarrow> consistent (save c)"
  by (auto simp: save_def consistent_def)

lemma set_attribute_consistent:
  "consistent c \<Longrightarrow> k \<in> set paint_keys \<Longrightarrow> consistent (set_attribute k v c)"
  by (auto simp: set_attribute_def consistent_def paint_attrs_update)

lemma setFont_consistent: "consistent c \<Longrightarrow> consistent (setFont f sz w st css c)"
  by (auto simp: setFont_def Let_def consistent_def paint_keys_def intro!: paint_attrs_spread)

lemma step_consistent:
  assumes "step op c = Inr c'" "consistent c"
  shows "consistent c'"
proof (cases op)
  case (DrawRect x y w h ats)
  then show ?thesis using assms by (auto dest: rect_frame leaf_frame_consistent)
next
  case (FillRect x y w h)
  then show ?thesis using assms
    by (auto simp: fillRect_def dest: rect_frame leaf_frame_consistent)
next
  case (PointerRect x y w h)
  then show ?thesis using assms
    by (auto simp: pointerRect_def dest: rect_frame leaf_frame_consistent)
next
  case (ClearRect x y w h)
  then show ?thesis using assms
    by (auto simp: clearRect_def dest: rect_frame leaf_frame_consistent)
next
  case (Fill ats)
  then show ?thesis using assms by (auto dest: fill_frame leaf_frame_consistent)
next
  case Stroke
  then show ?thesis using assms by (auto dest: stroke_frame leaf_frame_consistent)
next
  case (FillText t x y)
  then show ?thesis using assms
  proof (cases "t = []")
    case True
    then show ?thesis using assms FillText by (simp add: fillText_def)
  next
    case False
    then have "leaf_frame c c'" using assms FillText by (auto intro: fillText_frame)
    then show ?thesis using assms(2) by (rule leaf_frame_consistent)
  qed
next
  case (OpenGroup cls ident)
  then show ?thesis using assms
    by (cases "openGroup cls ident c") (auto dest: openGroup_consistent)
next
  case (OpenRotation a x y)
  then obtain g c1 where og: "openGroup None None c = Inr (g, c1)"
    and c': "c' = c1\<lparr>heap := (heap c1)(g := (heap c1 g)\<lparr>props :=
                 AList.update ''transform''
                   (Str [Lit ''translate('', Val x, Lit '','', Val y, Lit '') rotate('',
                         Val a, Lit '') translate(-'', Val x, Lit '',-'', Val y,
                         Lit '')''])
                   (props (heap c1 g))\<rparr>)\<rparr>"
    using assms by (auto simp: openRotation_def split: sum.splits prod.splits)
  have "consistent c1" using og assms(2) by (rule openGroup_consistent)
  then show ?thesis by (simp add: c' consistent_def)
next
  case (Add r)
  then show ?thesis using assms
    by (auto simp: add_def consistent_def split: option.splits)
next
  case (Arc x y r s e ccw)
  then show ?thesis using assms
    by (auto simp: arc_def Let_def consistent_def)
next
  case Save
  then show ?thesis using assms by (auto simp: save_consistent)
next
  case Restore
  then show ?thesis using assms by (auto simp: restore_consistent)
next
  case CloseGroup
  then show ?thesis using assms by (auto simp: closeGroup_consistent)
next
  case CloseRotation
  then show ?thesis using assms by (auto simp: closeRotation_def closeGroup_consistent)
next
  case (SetFont f sz w st css)
  then show ?thesis using assms by (auto simp: setFont_consistent)
next
  case (SetFillStyle s)
  then show ?thesis using assms
    by (auto simp: setFillStyle_def paint_keys_def intro: set_attribute_consistent)
next
  case (SetStrokeStyle s)
  then show ?thesis using assms
    by (auto simp: setStrokeStyle_def paint_keys_def intro: set_attribute_consistent)
next
  case (SetLineWidth s)
  then show ?thesis using assms
    by (auto simp: setLineWidth_def paint_keys_def intro: set_attribute_consistent)
next
  case (SetLineCap s)
  then show ?thesis using assms
    by (auto simp: setLineCap_def paint_keys_def intro: set_attribute_consistent)
next
  case (SetLineDash s)
  then show ?thesis using assms
    by (auto simp: setLineDash_def paint_keys_def intro: set_attribute_consistent)
qed (use assms in \<open>auto simp: clear_def setBackgroundFillStyle_def
      setShadowColor_def setShadowBlur_def scale_def setViewBox_def set_svg_prop_def resize_def
      beginPath_def moveTo_def lineTo_def bezierCurveTo_def quadraticCurveTo_def closePath_def
      Let_def consistent_def\<close>)

lemma run_consistent: "run ops c = Inr c' \<Longrightarrow> consistent c \<Longrightarrow> consistent c'"
  by (induction ops arbitrary: c) (auto split: sum.splits dest: step_consistent)

lemma initial_attributes_eq:
  "initial_attributes =
     [(''stroke-width'', Num 1), (''stroke-dasharray'', lit ''none''), (''fill'', lit ''black''),
      (''stroke'', lit ''black''), (''font-family'', lit ''Bravura, Academico, serif''),
      (''font-size'', lit ''10pt''), (''font-weight'', lit ''normal''),
      (''font-style'', lit ''normal'')]"
  by (simp add: initial_attributes_def spread_def defaultFontAttributes_def)

lemma new_ctx_consistent: "consistent (new_ctx w h pl)"
  by (simp add: consistent_def new_ctx_sel top_of_def paint_attrs_def initial_attributes_eq
      paint_keys_def)

section \<open>Saving and restoring paint state\<close>

lemma step_stateStack:
  assumes "step op c = Inr c'" "op \<noteq> Save" "op \<noteq> Restore"
  shows "stateStack c' = stateStack c"
proof (cases op)
  case (DrawRect x y w h ats)
  then show ?thesis using assms
    by (auto simp: rect_def createElement_def Let_def split: prod.splits if_splits dest: addElement_sel(9))
next
  case (FillRect x y w h)
  then show ?thesis using assms
    by (auto simp: fillRect_def rect_def createElement_def Let_def split: prod.splits if_splits dest: addElement_sel(9))
next
  case (PointerRect x y w h)
  then show ?thesis using assms
    by (auto simp: pointerRect_def rect_def createElement_def Let_def split: prod.splits if_splits dest: addElement_sel(9))
next
  case (ClearRect x y w h)
  then show ?thesis using assms
    by (auto simp: clearRect_def rect_def createElement_def Let_def split: prod.splits if_splits dest: addElement_sel(9))
next
  case (Fill ats)
  then show ?thesis using assms
    by (auto simp: fill_def createElement_def Let_def split: prod.splits dest: addElement_sel(9))
next
  case Stroke
  then show ?thesis using assms
    by (auto simp: stroke_def createElement_def Let_def split: prod.splits dest: addElement_sel(9))
next
  case (FillText t x y)
  then show ?thesis using assms
    by (auto simp: fillText_def createElement_def Let_def split: prod.splits if_splits dest: addElement_sel(9))
next
  case (OpenGroup cls ident)
  then show ?thesis using assms
    by (cases "openGroup cls ident c") (auto dest: openGroup_sel(9))
next
  case (OpenRotation a x y)
  then show ?thesis using assms
    by (auto simp: openRotation_def split: sum.splits prod.splits dest: openGroup_sel(9))
next
  case (Add r)
  then show ?thesis using assms
    by (auto simp: add_def split: option.splits)
next
  case (Arc x y r s e ccw)
  then show ?thesis using assms
    by (auto simp: arc_def Let_def)
qed (use assms in \<open>auto simp: clear_def setFillStyle_def setBackgroundFillStyle_def
      setStrokeStyle_def setShadowColor_def setShadowBlur_def setLineWidth_def setLineCap_def
      setLineDash_def setFont_def scale_def setViewBox_def set_svg_prop_def resize_def
      beginPath_def moveTo_def lineTo_def bezierCurveTo_def quadraticCurveTo_def closePath_def
      closeGroup_def closeRotation_def set_attribute_def Let_def\<close>)


lemma run_append:
  "run (xs @ ys) c = (case run xs c of Inl e \<Rightarrow> Inl e | Inr c1 \<Rightarrow> run ys c1)"
  by (induction xs arbitrary: c) (auto split: sum.splits)

lemma nesting_stack:
  assumes "nesting ops d = Some d'" "run ops c = Inr c'"
    "stateStack c = base @ ds" "length ds = d"
  shows "\<exists>ds'. stateStack c' = base @ ds' \<and> length ds' = d'"
  using assms
proof (induction ops arbitrary: c d ds)
  case Nil
  then show ?case by simp
next
  case (Cons o1 os)
  from Cons.prems(2) obtain c1 where s1: "step o1 c = Inr c1" and r1: "run os c1 = Inr c'"
    by (auto split: sum.splits)
  show ?case
  proof (cases "o1 = Save")
    case True
    then have "stateStack c1 = base @ (ds @ [(state c, attributes c)])"
      using s1 Cons.prems(3) by (auto simp: save_def)
    moreover have "nesting os (Suc d) = Some d'"
      using Cons.prems(1) True by simp
    ultimately show ?thesis
      using Cons.IH [of "Suc d" c1 "ds @ [(state c, attributes c)]"] r1 Cons.prems(4) by simp
  next
    case notSave: False
    show ?thesis
    proof (cases "o1 = Restore")
      case True
      then obtain d0 where d: "d = Suc d0" and n: "nesting os d0 = Some d'"
        using Cons.prems(1) by (auto split: nat.splits)
      then have ne: "ds \<noteq> []" using Cons.prems(4) by auto
      then have "stateStack c1 = base @ butlast ds"
        using s1 True Cons.prems(3)
        by (auto simp: restore_def top_of_def butlast_append split: option.splits)
      moreover have "length (butlast ds) = d0"
        using d Cons.prems(4) by simp
      ultimately show ?thesis
        using Cons.IH [of d0 c1 "butlast ds"] r1 n by simp
    next
      case False
      then have "stateStack c1 = stateStack c"
        using step_stateStack [OF s1] notSave by simp
      moreover have "nesting os d = Some d'"
        using Cons.prems(1) notSave False by (cases o1) auto
      ultimately show ?thesis
        using Cons.IH [of d c1 ds] r1 Cons.prems(3,4) by simp
    qed
  qed
qed

text \<open>
  C4. Whatever calls are made between a \<^verbatim>\<open>save()\<close> and its matching \<^verbatim>\<open>restore()\<close>, nested
  pairs included, the paint attributes and the transform state after the \<^verbatim>\<open>restore()\<close> are
  those from immediately before the \<^verbatim>\<open>save()\<close>, and the stack of saved states is as it was.
  A \<^verbatim>\<open>restore()\<close> on an empty stack returns normally and changes nothing.
\<close>

theorem save_restore_round_trip:
  "(balanced ops \<and> run (Save # ops @ [Restore]) c = Inr c' \<longrightarrow>
      attributes c' = attributes c \<and> state c' = state c \<and> stateStack c' = stateStack c) \<and>
   (stateStack c = [] \<longrightarrow> step Restore c = Inr c)"
proof -
  have "attributes c' = attributes c \<and> state c' = state c \<and> stateStack c' = stateStack c"
    if b: "balanced ops" and r: "run (Save # ops @ [Restore]) c = Inr c'"
  proof -
    from r have "run (ops @ [Restore]) (save c) = Inr c'" by simp
    then obtain c1 where r1: "run ops (save c) = Inr c1" and c': "c' = restore c1"
      by (auto simp: run_append split: sum.splits)
    have "stateStack (save c) = (stateStack c @ [(state c, attributes c)]) @ []"
      by (simp add: save_def)
    with nesting_stack [OF _ r1, of 0 0 _ "[]"] b
    have "stateStack c1 = stateStack c @ [(state c, attributes c)]"
      by (auto simp: balanced_def)
    then show ?thesis
      by (simp add: c' restore_def top_of_def)
  qed
  moreover have "step Restore c = Inr c" if "stateStack c = []"
    using that by (simp add: restore_def top_of_def)
  ultimately show ?thesis by blast
qed

theorem save_restore_round_trip_witness:
  "balanced [SetFillStyle ''blue'', Save, SetLineWidth 3, Restore, SetLineDash [5, 3]] \<and>
   map_sum id attributes
     (run (Save # [SetFillStyle ''blue'', Save, SetLineWidth 3, Restore, SetLineDash [5, 3]]
             @ [Restore]) (new_ctx None None 3)) = Inr initial_attributes \<and>
   stateStack (new_ctx None None 3) = [] \<and>
   step Restore (new_ctx None None 3) = Inr (new_ctx None None 3)"
proof -
  let ?ops = "[SetFillStyle ''blue'', Save, SetLineWidth 3, Restore, SetLineDash [5, 3]]"
  let ?c = "new_ctx None None 3"
  have b: "balanced ?ops" by (simp add: balanced_def)
  have r: "run (Save # ?ops @ [Restore]) ?c =
     Inr (restore (setLineDash [5, 3] (restore (setLineWidth 3 (save (setFillStyle ''blue''
       (save ?c)))))))"
    by simp
  show ?thesis
    using b r save_restore_round_trip [of ?ops ?c "restore (setLineDash [5, 3] (restore (setLineWidth 3 (save (setFillStyle ''blue''
       (save ?c))))))"] save_restore_round_trip [of "[]" ?c ?c]
    by (simp add: new_ctx_sel)
qed


section \<open>Attribute application\<close>

lemma loop_untouched:
  "\<forall>k \<in> fst ` set attrs. propName k \<noteq> p \<Longrightarrow>
     map_of (applyAttributes_loop ty g attrs ps) p = map_of ps p"
  by (induction attrs arbitrary: ps) (auto simp: update_conv')

lemma loop_origin:
  "map_of (applyAttributes_loop ty g attrs ps) p = Some v \<Longrightarrow>
     map_of ps p = Some v \<or>
     (\<exists>k. (k, v) \<in> set attrs \<and> propName k = p \<and> \<not> attrNamesToIgnore ty k \<and>
          v \<noteq> Undefined \<and> (\<forall>ga. g = Some ga \<longrightarrow> v \<noteq> aget ga k))"
proof (induction attrs arbitrary: ps)
  case Nil
  then show ?case by simp
next
  case (Cons kv rest)
  obtain k1 v1 where kv: "kv = (k1, v1)" by (cases kv)
  show ?case
  proof (cases "attrNamesToIgnore ty k1 \<or> v1 = Undefined \<or>
      (case g of None \<Rightarrow> False | Some ga \<Rightarrow> v1 = aget ga k1)")
    case True
    then have "applyAttributes_loop ty g (kv # rest) ps = applyAttributes_loop ty g rest ps"
      by (auto simp: kv)
    with Cons show ?thesis by fastforce
  next
    case False
    then have e: "applyAttributes_loop ty g (kv # rest) ps =
        applyAttributes_loop ty g rest (AList.update (propName k1) v1 ps)"
      by (auto simp: kv)
    from Cons.IH [of "AList.update (propName k1) v1 ps"] Cons.prems e
    consider "map_of (AList.update (propName k1) v1 ps) p = Some v"
      | "\<exists>k. (k, v) \<in> set rest \<and> propName k = p \<and> \<not> attrNamesToIgnore ty k \<and>
          v \<noteq> Undefined \<and> (\<forall>ga. g = Some ga \<longrightarrow> v \<noteq> aget ga k)"
      by auto
    then show ?thesis
    proof cases
      case 1
      show ?thesis
      proof (cases "p = propName k1")
        case True
        with 1 have "v = v1" by (simp add: update_conv')
        with False True kv show ?thesis by (auto split: option.splits)
      next
        case False
        with 1 show ?thesis by (simp add: update_conv')
      qed
    next
      case 2
      then show ?thesis by auto
    qed
  qed
qed


lemma propName_range: "propName k = k \<or> propName k \<in> snd ` set PROP_MAP"
proof (cases "map_of PROP_MAP k")
  case None
  then show ?thesis by (simp add: propName_def)
next
  case (Some q)
  then have "(k, q) \<in> set PROP_MAP" by (rule map_of_SomeD)
  then have "q \<in> snd ` set PROP_MAP" by force
  then show ?thesis using Some by (simp add: propName_def)
qed

lemma prop_names:
  "snd ` set PROP_MAP = set [''fontFamily'', ''fontSize'', ''fontWeight'', ''fontStyle'',
     ''strokeWidth'', ''strokeDasharray'', ''strokeLinecap'', ''pointerEvents'', ''className'']"
  unfolding PROP_MAP_def by simp


lemma fixed_not_prop:
  assumes "p \<in> {''key'', ''x'', ''y'', ''width'', ''height''}"
  shows "p \<notin> snd ` set PROP_MAP" "map_of PROP_MAP p = None"
  using assms unfolding PROP_MAP_def
  by (elim insertE emptyE; simp)+

lemma propName_fixed:
  assumes "p \<in> {''key'', ''x'', ''y'', ''width'', ''height''}"
  shows "propName k = p \<longleftrightarrow> k = p"
proof
  assume "propName k = p"
  then show "k = p" using propName_range [of k] fixed_not_prop(1) [OF assms] by auto
next
  assume "k = p"
  then show "propName k = p" using fixed_not_prop(2) [OF assms] by (simp add: propName_def)
qed

section \<open>Leaf nodes\<close>

lemma register_plain: "nid el = None \<Longrightarrow> className el = None \<Longrightarrow> register a el c = c"
  by (simp add: register_def truthy_def)

lemma addElement_leaf:
  "addElement a (new_node ty ps tc) c =
     (case parent c of
        None \<Rightarrow> Inl TypeError
      | Some p \<Rightarrow> Inr (c\<lparr>heap := push_child p (Own a) ((heap c)(a := new_node ty ps tc))\<rparr>))"
  by (simp add: addElement_def register_plain new_node_def split: option.splits)

lemma rect_eq:
  "rect x y w h ats c =
     addElement (nextElementKey c)
       (new_node Rect
          (applyAttributes_loop Rect (top_of (groupAttributes c))
             (spread [(''fill'', lit ''none''),
                      (''stroke-width'', aget (attributes c) ''stroke-width''),
                      (''stroke'', lit ''black'')]
                (case ats of None \<Rightarrow> [] | Some a \<Rightarrow> a))
             [(''key'', Num (of_nat (nextElementKey c))),
              (''x'', Num (round_to c x)),
              (''y'', Num (round_to c (if h < 0 then y + h else y))),
              (''width'', Num (round_to c w)),
              (''height'', Num (round_to c (if h < 0 then - h else h)))])
          None)
       (c\<lparr>nextElementKey := nextElementKey c + 1\<rparr>)"
  by (simp add: rect_def createElement_def Let_def applyAttributes_def new_node_def)

lemma fill_eq:
  "fill ats c =
     addElement (nextElementKey c)
       (new_node Path
          (applyAttributes_loop Path (top_of (groupAttributes c))
             (AList.update ''d'' (Str (path c))
                (case ats of
                   None \<Rightarrow> spread (attributes c) [(''stroke'', lit ''none'')]
                 | Some a \<Rightarrow> a))
             [(''key'', Num (of_nat (nextElementKey c)))])
          None)
       (c\<lparr>nextElementKey := nextElementKey c + 1\<rparr>)"
  by (simp add: fill_def createElement_def Let_def applyAttributes_def new_node_def)

lemma stroke_eq:
  "stroke c =
     addElement (nextElementKey c)
       (new_node Path
          (applyAttributes_loop Path (top_of (groupAttributes c))
             (spread (attributes c) [(''fill'', lit ''none''), (''d'', Str (path c))])
             [(''key'', Num (of_nat (nextElementKey c)))])
          None)
       (c\<lparr>nextElementKey := nextElementKey c + 1\<rparr>)"
  by (simp add: stroke_def createElement_def Let_def applyAttributes_def new_node_def)

lemma fillText_eq:
  "t \<noteq> [] \<Longrightarrow> fillText t x y c =
     addElement (nextElementKey c)
       (new_node Text
          (applyAttributes_loop Text (top_of (groupAttributes c))
             (spread (attributes c) [(''stroke'', lit ''none'')])
             [(''key'', Num (of_nat (nextElementKey c))),
              (''x'', Num (round_to c x)), (''y'', Num (round_to c y))])
          (Some t))
       (c\<lparr>nextElementKey := nextElementKey c + 1\<rparr>)"
  by (simp add: fillText_def createElement_def Let_def applyAttributes_def new_node_def)

lemma rect_flip: "h < 0 \<Longrightarrow> rect x y w h ats c = rect x (y + h) w \<bar>h\<bar> ats c"
  by (simp add: rect_eq)



lemma keys_spread: "fst ` set (spread a b) = fst ` set a \<union> fst ` set b"
  unfolding spread_def
proof (induction b arbitrary: a)
  case Nil
  then show ?case by simp
next
  case (Cons kv b)
  obtain k v where kv: "kv = (k, v)" by (cases kv)
  show ?case
    using Cons.IH [of "AList.update k v a"] by (simp add: kv dom_update)
qed

lemma distinct_spread: "distinct (map fst a) \<Longrightarrow> distinct (map fst (spread a b))"
  unfolding spread_def
  by (induction b arbitrary: a) (auto simp: distinct_update)

lemma push_child_sel:
  "props (push_child p r h q) = props (h q)"
  "ntype (push_child p r h q) = ntype (h q)"
  "textContent (push_child p r h q) = textContent (h q)"
  "children (push_child p r h p) = children (h p) @ [r]"
  "q \<noteq> p \<Longrightarrow> push_child p r h q = h q"
  by (simp_all add: push_child_def)

lemma round_to_nonneg: "0 < precision c \<Longrightarrow> 0 \<le> n \<Longrightarrow> 0 \<le> round_to c n"
  by (simp add: round_to_def)

lemma parent_below_key:
  assumes "consistent c" "parent c = Some p"
  shows "p < nextElementKey c"
proof -
  have "top_of (groups c) = Some p" using assms by (simp add: consistent_def)
  then have "p \<in> set (groups c)" by (auto simp: top_of_def split: if_splits)
  then show ?thesis using assms(1) by (auto simp: consistent_def list_all_iff)
qed

section \<open>Closing groups\<close>

lemma openGroup_heap:
  assumes "openGroup cls ident c = Inr (a, c')" "parent c = Some p" "p \<noteq> nextElementKey c"
  shows "children (heap c' p) = children (heap c p) @ [Own a]" "ntype (heap c' a) = G"
    "children (heap c' a) = []"
  using assms
  by (auto simp add: openGroup_def createElement_def Let_def register_sel applyAttributes_def
      push_child_def split: option.splits)

lemma butlast_top: "top_of (butlast (xs @ [x])) = top_of xs"
  by (simp add: top_of_def)

text \<open>
  C2, as the code has it. \<^verbatim>\<open>closeGroup()\<close> never raises. It pops the top frame of the group
  stack and of the stack of effective attributes; when at least one group beyond the root
  was open, the frame below becomes the insertion point again; when none was, the stack is
  left empty and the insertion point undefined. The frame below is the parent of the group
  that is closed: in every state a drawing sequence can reach, \<^verbatim>\<open>openGroup\<close> appends the new
  group to the children of the insertion point, and closing it right away gives back that
  insertion point and both stacks.
\<close>

theorem closeGroup_pops_frame:
  "step CloseGroup c = Inr (closeGroup c) \<and>
   groups (closeGroup c) = butlast (groups c) \<and>
   groupAttributes (closeGroup c) = butlast (groupAttributes c) \<and>
   (length (groups c) \<le> 1 \<longrightarrow> parent (closeGroup c) = None) \<and>
   (2 \<le> length (groups c) \<longrightarrow>
      parent (closeGroup c) = Some (groups c ! (length (groups c) - 2))) \<and>
   (run ops (new_ctx w h pl) = Inr c \<and> openGroup cls ident c = Inr (a, c1) \<longrightarrow>
      (\<exists>p. parent c = Some p \<and>
           children (heap c1 p) = children (heap c p) @ [Own a] \<and>
           parent c1 = Some a \<and>
           parent (closeGroup c1) = Some p \<and>
           groups (closeGroup c1) = groups c \<and>
           groupAttributes (closeGroup c1) = groupAttributes c))"
proof -
  have "top_of (butlast (groups c)) = None" if "length (groups c) \<le> 1"
    using that by (cases "groups c") (auto simp: top_of_def)
  moreover have "top_of (butlast (groups c)) = Some (groups c ! (length (groups c) - 2))"
    if "2 \<le> length (groups c)"
  proof -
    have ne: "butlast (groups c) \<noteq> []"
      using that by (cases "groups c") auto
    have "last (butlast (groups c)) = butlast (groups c) ! (length (groups c) - 2)"
      using ne by (simp add: last_conv_nth numeral_2_eq_2)
    also have "\<dots> = groups c ! (length (groups c) - 2)"
      using that by (simp add: nth_butlast)
    finally show ?thesis using ne by (simp add: top_of_def)
  qed
  moreover have "\<exists>p. parent c = Some p \<and>
           children (heap c1 p) = children (heap c p) @ [Own a] \<and>
           parent c1 = Some a \<and>
           parent (closeGroup c1) = Some p \<and>
           groups (closeGroup c1) = groups c \<and>
           groupAttributes (closeGroup c1) = groupAttributes c"
    if r: "run ops (new_ctx w h pl) = Inr c" and og: "openGroup cls ident c = Inr (a, c1)"
  proof -
    have con: "consistent c" using r new_ctx_consistent by (rule run_consistent)
    note s = openGroup_sel [OF og]
    from s(13) obtain p where p: "parent c = Some p" by auto
    have ne: "p \<noteq> nextElementKey c" using parent_below_key [OF con p] by simp
    have tp: "top_of (groups c) = Some p" using con p by (simp add: consistent_def)
    show ?thesis
      using p tp openGroup_heap(1) [OF og p ne]
      by (simp add: closeGroup_def Let_def s butlast_top)
  qed
  ultimately show ?thesis
    by (simp add: closeGroup_def Let_def)
qed

theorem closeGroup_pops_frame_witness:
  "length (groups (new_ctx None None 3)) \<le> 1 \<and>
   2 \<le> length (groups ((new_ctx None None 3)\<lparr>groups := [1, 2]\<rparr>)) \<and>
   parent (closeGroup (new_ctx None None 3)) = None \<and>
   parent (closeGroup ((new_ctx None None 3)\<lparr>groups := [1, 2]\<rparr>)) = Some 1 \<and>
   run [] (new_ctx None None 3) = Inr (new_ctx None None 3) \<and>
   map_sum id (\<lambda>r. (fst r, parent (snd r), parent (closeGroup (snd r)), groups (closeGroup (snd r))))
     (openGroup (Some ''note'') (Some ''0'') (new_ctx None None 3)) =
     Inr (2, Some 2, Some 1, [1])"
proof -
  let ?c = "new_ctx None None 3"
  obtain c1 where og: "openGroup (Some ''note'') (Some ''0'') ?c = Inr (nextElementKey ?c, c1)"
    using openGroup_result [of ?c 1 "Some ''note''" "Some ''0''"] by (auto simp: new_ctx_sel)
  have r: "run [] ?c = Inr ?c" by simp
  show ?thesis
    using closeGroup_pops_frame [of ?c "[]" None None 3 "Some ''note''" "Some ''0''" "nextElementKey ?c" c1]
      closeGroup_pops_frame [of "?c\<lparr>groups := [1, 2]\<rparr>" "[]" None None 3 None None 0 ?c] r og
    by (simp add: new_ctx_sel)
qed

text \<open>
  On a fresh context, where only the root is on the stack, \<^verbatim>\<open>closeGroup()\<close> returns normally
  and leaves no insertion point.
\<close>

theorem closeGroup_at_root_returns:
  "step CloseGroup (new_ctx None None 3) \<noteq> Inl TypeError \<and>
   map_sum id parent (step CloseGroup (new_ctx None None 3)) = Inr None \<and>
   map_sum id groups (step CloseGroup (new_ctx None None 3)) = Inr []"
  by (simp add: closeGroup_def Let_def new_ctx_sel top_of_def)

text \<open>Without an insertion point, every call that appends a node raises.\<close>

lemma append_without_parent:
  assumes "parent c = None"
  shows "rect x y w h ats c = Inl TypeError" "fill ats c = Inl TypeError"
    "stroke c = Inl TypeError" "t \<noteq> [] \<Longrightarrow> fillText t x y c = Inl TypeError"
    "openGroup cls ident c = Inl TypeError" "add child c = Inl TypeError"
  using assms
  by (simp_all add: rect_eq fill_eq stroke_eq fillText_eq addElement_leaf openGroup_def
      createElement_def add_def Let_def)

section \<open>Rectangles\<close>

lemma rect_height:
  assumes "0 < precision c" "\<forall>a. ats = Some a \<longrightarrow> ''height'' \<notin> fst ` set a"
    "rect x y w h ats c = Inr c'"
  shows "\<exists>p. parent c = Some p \<and>
           last (children (heap c' p)) = Own (nextElementKey c) \<and>
           ntype (heap c' (nextElementKey c)) = Rect \<and>
           aget (props (heap c' (nextElementKey c))) ''height'' = Num (round_to c \<bar>h\<bar>) \<and>
           0 \<le> round_to c \<bar>h\<bar>"
proof -
  let ?attrs = "spread [(''fill'', lit ''none''),
                      (''stroke-width'', aget (attributes c) ''stroke-width''),
                      (''stroke'', lit ''black'')]
                (case ats of None \<Rightarrow> [] | Some a \<Rightarrow> a)"
  let ?ps = "[(''key'', Num (of_nat (nextElementKey c))),
              (''x'', Num (round_to c x)),
              (''y'', Num (round_to c (if h < 0 then y + h else y))),
              (''width'', Num (round_to c w)),
              (''height'', Num (round_to c (if h < 0 then - h else h)))]"
  let ?nn = "new_node Rect (applyAttributes_loop Rect (top_of (groupAttributes c)) ?attrs ?ps) None"
  from assms(3) obtain p where p: "parent c = Some p"
    and h: "heap c' = push_child p (Own (nextElementKey c)) ((heap c)(nextElementKey c := ?nn))"
    by (auto simp: rect_eq addElement_leaf split: option.splits)
  have "''height'' \<notin> fst ` set ?attrs"
    using assms(2) by (auto simp: keys_spread split: option.splits)
  then have "\<forall>k \<in> fst ` set ?attrs. propName k \<noteq> ''height''"
    using propName_fixed [of "''height''"] by (metis insertCI)
  then have "map_of (applyAttributes_loop Rect (top_of (groupAttributes c)) ?attrs ?ps) ''height'' =
      map_of ?ps ''height''"
    by (rule loop_untouched)
  then have "aget (props ?nn) ''height'' = Num (round_to c \<bar>h\<bar>)"
    by (simp add: aget_def new_node_def abs_if)
  then show ?thesis
    using p assms(1) by (simp add: h push_child_sel new_node_def round_to_nonneg)
qed

lemma rect_succeeds: "parent c = Some p \<Longrightarrow> \<exists>c'. rect x y w h ats c = Inr c'"
  by (simp add: rect_eq addElement_leaf)

lemma run_precision: "run ops c = Inr c' \<Longrightarrow> consistent c \<Longrightarrow> 0 < precision c'"
  by (auto dest: run_consistent simp: consistent_def)

text \<open>
  C8, as the code has it. With a negative height, \<^verbatim>\<open>rect(x, y, w, h)\<close> does what
  \<^verbatim>\<open>rect(x, y + h, w, abs(h))\<close> does, with or without an attribute argument, and so do
  \<^verbatim>\<open>fillRect\<close>, \<^verbatim>\<open>clearRect\<close> and \<^verbatim>\<open>pointerRect\<close>. In every state a drawing sequence can
  reach, the node that \<^verbatim>\<open>rect\<close> without an attribute argument or one of the three other calls
  appends is the last child of the insertion point and carries the height
  \<open>round (abs h)\<close>, which is not negative; the same holds when \<^verbatim>\<open>rect\<close> is given an attribute
  argument that does not itself set \<^verbatim>\<open>height\<close>.
\<close>

theorem rect_negative_height:
  "(h < 0 \<longrightarrow>
      rect x y w h ats c = rect x (y + h) w \<bar>h\<bar> ats c \<and>
      fillRect x y w h c = fillRect x (y + h) w \<bar>h\<bar> c \<and>
      clearRect x y w h c = clearRect x (y + h) w \<bar>h\<bar> c \<and>
      pointerRect x y w h c = pointerRect x (y + h) w \<bar>h\<bar> c) \<and>
   (run ops (new_ctx w0 h0 pl) = Inr c \<and>
    o1 \<in> {DrawRect x y w h None, FillRect x y w h, ClearRect x y w h, PointerRect x y w h} \<and>
    step o1 c = Inr c' \<longrightarrow>
      (\<exists>p. parent c = Some p \<and>
           last (children (heap c' p)) = Own (nextElementKey c) \<and>
           ntype (heap c' (nextElementKey c)) = Rect \<and>
           aget (props (heap c' (nextElementKey c))) ''height'' = Num (round_to c \<bar>h\<bar>) \<and>
           0 \<le> round_to c \<bar>h\<bar>)) \<and>
   (run ops (new_ctx w0 h0 pl) = Inr c \<and> ''height'' \<notin> fst ` set a \<and>
    rect x y w h (Some a) c = Inr c' \<longrightarrow>
      aget (props (heap c' (nextElementKey c))) ''height'' = Num (round_to c \<bar>h\<bar>) \<and>
      0 \<le> round_to c \<bar>h\<bar>)"
proof -
  have flip: "rect x y w h ats c = rect x (y + h) w \<bar>h\<bar> ats c" if "h < 0" for ats
    using that by (rule rect_flip)
  have prec: "0 < precision c" if "run ops (new_ctx w0 h0 pl) = Inr c"
    using that new_ctx_consistent by (rule run_precision)
  have fam: "\<exists>ats. step o1 c = rect x y w h ats c \<and> (\<forall>a. ats = Some a \<longrightarrow> ''height'' \<notin> fst ` set a)"
    if "o1 \<in> {DrawRect x y w h None, FillRect x y w h, ClearRect x y w h, PointerRect x y w h}"
    using that by (auto simp: fillRect_def clearRect_def pointerRect_def)
  show ?thesis
    apply (intro conjI impI)
         apply (simp add: flip)
        apply (simp add: fillRect_def flip)
       apply (simp add: clearRect_def flip)
      apply (simp add: pointerRect_def flip)
    subgoal using fam rect_height prec by metis
    subgoal using rect_height [of c "Some a" x y w h c'] prec by auto
    subgoal using rect_height [of c "Some a" x y w h c'] prec by auto
    done
qed

theorem rect_negative_height_witness:
  "(- 30 :: real) < 0 \<and>
   run [] (new_ctx None None 3) = Inr (new_ctx None None 3) \<and>
   fillRect 10 100 50 (- 30) (new_ctx None None 3) = fillRect 10 70 50 30 (new_ctx None None 3) \<and>
   map_sum id (\<lambda>c'. aget (props (heap c' 2)) ''height'')
     (step (FillRect 10 100 50 (- 30)) (new_ctx None None 3)) = Inr (Num 30) \<and>
   map_sum id (\<lambda>c'. aget (props (heap c' 2)) ''height'')
     (rect 10 100 50 (- 30) (Some [(''fill'', lit ''red'')]) (new_ctx None None 3)) = Inr (Num 30)"
proof -
  let ?c = "new_ctx None None 3"
  have "\<exists>c1. step (FillRect 10 100 50 (- 30)) ?c = Inr c1"
    unfolding step.simps fillRect_def by (rule rect_succeeds) (simp add: new_ctx_sel)
  then obtain c1 where c1: "step (FillRect 10 100 50 (- 30)) ?c = Inr c1" ..
  have "\<exists>c2. rect 10 100 50 (- 30) (Some [(''fill'', lit ''red'')]) ?c = Inr c2"
    by (rule rect_succeeds) (simp add: new_ctx_sel)
  then obtain c2 where c2: "rect 10 100 50 (- 30) (Some [(''fill'', lit ''red'')]) ?c = Inr c2" ..
  have r: "run [] ?c = Inr ?c" by simp
  show ?thesis
    using r c1 c2
      rect_negative_height [of "- 30" 10 100 50 None ?c "[]" None None 3 "FillRect 10 100 50 (- 30)" c1
             "[(''fill'', lit ''red'')]"]
      rect_negative_height [of "- 30" 10 100 50 None ?c "[]" None None 3 "FillRect 10 100 50 (- 30)" c2
             "[(''fill'', lit ''red'')]"]
    by (simp add: new_ctx_sel round_to_def)
qed

text \<open>
  An attribute argument that sets \<^verbatim>\<open>height\<close> is applied after the geometry, and rectangles
  ignore only the font names: on a fresh context \<^verbatim>\<open>rect(0, 0, 10, -5, {height: -7})\<close> appends
  a node of height -7.
\<close>

theorem rect_explicit_height_applied:
  "rect 0 0 10 (- 5) (Some [(''height'', Num (- 7))]) (new_ctx None None 3) =
     Inr ((new_ctx None None 3)
            \<lparr>heap := push_child 1 (Own 2)
               ((heap (new_ctx None None 3))
                  (2 := \<lparr>ntype = Rect,
                         props = [(''key'', Num 2), (''x'', Num 0), (''y'', Num (- 5)),
                                  (''width'', Num 10), (''height'', Num (- 7)),
                                  (''fill'', lit ''none'')],
                         children = [], textContent = None, nid = None,
                         className = None\<rparr>)),
             nextElementKey := 3\<rparr>)"
proof -
  have ig: "\<not> attrNamesToIgnore Rect ''fill''" "\<not> attrNamesToIgnore Rect ''stroke-width''"
    "\<not> attrNamesToIgnore Rect ''stroke''" "\<not> attrNamesToIgnore Rect ''height''"
    by (simp_all add: attrNamesToIgnore_def ATTRIBUTES_TO_IGNORE_def object_prototype_names_def)
  have pn: "propName ''fill'' = ''fill''" "propName ''height'' = ''height''"
    by (simp_all add: propName_def PROP_MAP_def)
  have ag: "aget initial_attributes ''fill'' = lit ''black''"
    "aget initial_attributes ''stroke-width'' = Num 1"
    "aget initial_attributes ''stroke'' = lit ''black''"
    "aget initial_attributes ''height'' = Undefined"
    by (simp_all add: initial_attributes_eq aget_def)
  have sp: "spread [(''fill'', lit ''none''), (''stroke-width'', Num 1), (''stroke'', lit ''black'')]
               [(''height'', Num (- 7))] =
            [(''fill'', lit ''none''), (''stroke-width'', Num 1), (''stroke'', lit ''black''),
             (''height'', Num (- 7))]"
    by (simp add: spread_def)
  have ps: "applyAttributes_loop Rect (Some initial_attributes)
              (spread [(''fill'', lit ''none''), (''stroke-width'', Num 1),
                       (''stroke'', lit ''black'')]
                 [(''height'', Num (- 7))])
              [(''key'', Num 2), (''x'', Num 0), (''y'', Num (- 5)), (''width'', Num 10),
               (''height'', Num 5)] =
            [(''key'', Num 2), (''x'', Num 0), (''y'', Num (- 5)), (''width'', Num 10),
             (''height'', Num (- 7)), (''fill'', lit ''none'')]"
    unfolding sp by (simp add: ag ig pn lit_def)
  have "rect 0 0 10 (- 5) (Some [(''height'', Num (- 7))]) (new_ctx None None 3) =
     Inr ((new_ctx None None 3)
            \<lparr>heap := push_child 1 (Own 2)
               ((heap (new_ctx None None 3))
                  (2 := new_node Rect
                         [(''key'', Num 2), (''x'', Num 0), (''y'', Num (- 5)),
                          (''width'', Num 10), (''height'', Num (- 7)),
                          (''fill'', lit ''none'')] None)),
             nextElementKey := 3\<rparr>)"
    by (simp add: rect_eq addElement_leaf new_ctx_sel top_of_def round_to_def ag ps)
  then show ?thesis
    by (simp add: new_node_def)
qed

section \<open>Text nodes\<close>

text \<open>
  C9. \<^verbatim>\<open>fillText('', x, y)\<close> returns normally and changes nothing. In every state a drawing
  sequence can reach in which there is an insertion point, \<^verbatim>\<open>fillText(t, x, y)\<close> with a
  non-empty \<open>t\<close> returns normally, creates one node, a childless text node whose text content
  is \<open>t\<close>, appends it to the children of the insertion point, and changes no other node.
\<close>

theorem fillText_appends_one_text_node:
  "fillText [] x y c = Inr c \<and>
   (run ops (new_ctx w h pl) = Inr c \<and> parent c = Some p \<and> t \<noteq> [] \<longrightarrow>
      (\<exists>c'. fillText t x y c = Inr c' \<and>
         heap c' p = (heap c p)\<lparr>children := children (heap c p) @ [Own (nextElementKey c)]\<rparr> \<and>
         ntype (heap c' (nextElementKey c)) = Text \<and>
         textContent (heap c' (nextElementKey c)) = Some t \<and>
         children (heap c' (nextElementKey c)) = [] \<and>
         (\<forall>q. q \<noteq> p \<and> q \<noteq> nextElementKey c \<longrightarrow> heap c' q = heap c q) \<and>
         nextElementKey c' = nextElementKey c + 1))"
proof -
  have "\<exists>c'. fillText t x y c = Inr c' \<and>
         heap c' p = (heap c p)\<lparr>children := children (heap c p) @ [Own (nextElementKey c)]\<rparr> \<and>
         ntype (heap c' (nextElementKey c)) = Text \<and>
         textContent (heap c' (nextElementKey c)) = Some t \<and>
         children (heap c' (nextElementKey c)) = [] \<and>
         (\<forall>q. q \<noteq> p \<and> q \<noteq> nextElementKey c \<longrightarrow> heap c' q = heap c q) \<and>
         nextElementKey c' = nextElementKey c + 1"
    if r: "run ops (new_ctx w h pl) = Inr c" and p: "parent c = Some p" and t: "t \<noteq> []"
  proof -
    have "consistent c" using r new_ctx_consistent by (rule run_consistent)
    then have "p \<noteq> nextElementKey c" using p parent_below_key by fastforce
    then show ?thesis
      using p t
      apply (simp add: fillText_eq addElement_leaf)
      apply (simp add: push_child_def new_node_def)
      done
  qed
  then show ?thesis by (simp add: fillText_def)
qed

theorem fillText_appends_one_text_node_witness:
  "run [] (new_ctx None None 3) = Inr (new_ctx None None 3) \<and>
   parent (new_ctx None None 3) = Some 1 \<and> ''A'' \<noteq> [] \<and>
   fillText [] 5 7 (new_ctx None None 3) = Inr (new_ctx None None 3) \<and>
   map_sum id (\<lambda>c'. (children (heap c' 1), ntype (heap c' 2), textContent (heap c' 2)))
     (fillText ''A'' 5 7 (new_ctx None None 3)) = Inr ([Own 2], Text, Some ''A'')"
proof -
  have root: "children (heap (new_ctx None None 3) (Suc 0)) = []"
    using new_ctx_sel(13) [of None None 3] by simp
  show ?thesis
    using fillText_appends_one_text_node [of 5 7 "new_ctx None None 3" "[]" None None 3 1 "''A''"]
    by (auto simp add: new_ctx_sel root)
qed


section \<open>Names of attributes and props\<close>

lemma map_of_inj:
  "distinct (map snd xs) \<Longrightarrow> map_of xs a = Some q \<Longrightarrow> map_of xs b = Some q \<Longrightarrow> a = b"
proof (induction xs)
  case Nil
  then show ?case by simp
next
  case (Cons x xs)
  obtain k v where x: "x = (k, v)" by (cases x)
  have notin: "map_of xs y \<noteq> Some v" for y
  proof
    assume "map_of xs y = Some v"
    then have "(y, v) \<in> set xs" by (rule map_of_SomeD)
    then have "v \<in> snd ` set xs" by force
    then show False using Cons.prems(1) x by simp
  qed
  show ?case
    using Cons x notin by (auto split: if_splits)
qed

lemma PROP_MAP_distinct: "distinct (map snd PROP_MAP)"
  unfolding PROP_MAP_def by simp

lemma propName_alias:
  assumes "propName a = propName b"
  shows "a = b \<or> a \<in> snd ` set PROP_MAP \<or> b \<in> snd ` set PROP_MAP"
proof (cases "map_of PROP_MAP a")
  case None
  note na = this
  show ?thesis
  proof (cases "map_of PROP_MAP b")
    case None
    with na assms show ?thesis by (simp add: propName_def)
  next
    case (Some q)
    then have "(b, q) \<in> set PROP_MAP" by (rule map_of_SomeD)
    then have "q \<in> snd ` set PROP_MAP" by force
    with na Some assms show ?thesis by (simp add: propName_def)
  qed
next
  case (Some q)
  note sa = this
  then have "(a, q) \<in> set PROP_MAP" by (rule map_of_SomeD)
  then have qa: "q \<in> snd ` set PROP_MAP" by force
  show ?thesis
  proof (cases "map_of PROP_MAP b")
    case None
    with sa qa assms show ?thesis by (simp add: propName_def)
  next
    case (Some q')
    with sa assms have "q' = q" by (simp add: propName_def)
    with sa Some show ?thesis using map_of_inj [OF PROP_MAP_distinct] by blast
  qed
qed

lemma paint_not_prop: "k \<in> set (''d'' # paint_keys) \<Longrightarrow> k \<notin> snd ` set PROP_MAP"
  unfolding paint_keys_def prop_names by simp (elim disjE; simp)

lemma paint_not_fixed:
  "k \<in> set (''d'' # paint_keys) \<Longrightarrow> k \<notin> {''key'', ''x'', ''y'', ''width'', ''height''}"
  unfolding paint_keys_def by simp (elim disjE; simp)

lemma default_not_prop:
  "k \<in> {''opacity'', ''pointer-events''} \<Longrightarrow> k \<notin> snd ` set PROP_MAP"
  unfolding prop_names by simp (elim disjE; simp)

lemma prop_not_fixed:
  "q \<in> snd ` set PROP_MAP \<Longrightarrow> q \<notin> {''key'', ''x'', ''y'', ''width'', ''height''}"
  using fixed_not_prop(1) by blast

lemma propName_paint_not_fixed:
  assumes "k \<in> set (''d'' # paint_keys)"
  shows "propName k \<notin> {''key'', ''x'', ''y'', ''width'', ''height''}"
  using propName_range [of k] paint_not_fixed [OF assms] prop_not_fixed by metis

section \<open>Elision of inherited attributes\<close>

lemma leaf_shapeI:
  assumes "addElement (nextElementKey c) (new_node ty (applyAttributes_loop ty g attrs ps) tc)
             (c\<lparr>nextElementKey := nextElementKey c + 1\<rparr>) = Inr c'"
    "g = top_of (groupAttributes c)"
    "fst ` set ps \<subseteq> {''key'', ''x'', ''y'', ''width'', ''height''}"
    "fst ` set attrs \<subseteq> K"
  shows "\<exists>p ty attrs ps tc. parent c = Some p \<and>
      heap c' = push_child p (Own (nextElementKey c))
        ((heap c)(nextElementKey c :=
           new_node ty (applyAttributes_loop ty (top_of (groupAttributes c)) attrs ps) tc)) \<and>
      fst ` set ps \<subseteq> {''key'', ''x'', ''y'', ''width'', ''height''} \<and>
      fst ` set attrs \<subseteq> K"
proof -
  from assms(1) obtain p where p: "parent c = Some p"
    and h: "heap c' = push_child p (Own (nextElementKey c))
        ((heap c)(nextElementKey c := new_node ty (applyAttributes_loop ty g attrs ps) tc))"
    by (auto simp: addElement_leaf split: option.splits)
  show ?thesis
    using p h assms(2-4) by blast
qed

lemma rect_shape:
  assumes "rect x y w h ats c = Inr c'"
    "{''fill'', ''stroke-width'', ''stroke''} \<union> fst ` set (case ats of None \<Rightarrow> [] | Some a \<Rightarrow> a)
       \<subseteq> K"
  shows "\<exists>p ty attrs ps tc. parent c = Some p \<and>
      heap c' = push_child p (Own (nextElementKey c))
        ((heap c)(nextElementKey c :=
           new_node ty (applyAttributes_loop ty (top_of (groupAttributes c)) attrs ps) tc)) \<and>
      fst ` set ps \<subseteq> {''key'', ''x'', ''y'', ''width'', ''height''} \<and>
      fst ` set attrs \<subseteq> K"
proof (rule leaf_shapeI)
  show "addElement (nextElementKey c)
       (new_node Rect
          (applyAttributes_loop Rect (top_of (groupAttributes c))
             (spread [(''fill'', lit ''none''),
                      (''stroke-width'', aget (attributes c) ''stroke-width''),
                      (''stroke'', lit ''black'')]
                (case ats of None \<Rightarrow> [] | Some a \<Rightarrow> a))
             [(''key'', Num (of_nat (nextElementKey c))),
              (''x'', Num (round_to c x)),
              (''y'', Num (round_to c (if h < 0 then y + h else y))),
              (''width'', Num (round_to c w)),
              (''height'', Num (round_to c (if h < 0 then - h else h)))])
          None)
       (c\<lparr>nextElementKey := nextElementKey c + 1\<rparr>) = Inr c'"
    using assms(1) by (simp only: rect_eq)
  show "fst ` set (spread [(''fill'', lit ''none''),
                      (''stroke-width'', aget (attributes c) ''stroke-width''),
                      (''stroke'', lit ''black'')]
                (case ats of None \<Rightarrow> [] | Some a \<Rightarrow> a)) \<subseteq> K"
    using assms(2) by (simp add: keys_spread)
qed simp_all

lemma leaf_shape:
  assumes "leaf_op o1" "step o1 c = Inr c'"
  shows "\<exists>p ty attrs ps tc. parent c = Some p \<and>
      heap c' = push_child p (Own (nextElementKey c))
        ((heap c)(nextElementKey c :=
           new_node ty (applyAttributes_loop ty (top_of (groupAttributes c)) attrs ps) tc)) \<and>
      fst ` set ps \<subseteq> {''key'', ''x'', ''y'', ''width'', ''height''} \<and>
      fst ` set attrs \<subseteq> fst ` set (attributes c) \<union>
         {''fill'', ''stroke'', ''stroke-width'', ''d'', ''opacity'', ''pointer-events''} \<union>
         fst ` set (explicit_attrs o1)"
    (is "\<exists>p ty attrs ps tc. ?P p ty attrs ps tc")
proof (cases o1)
  case (DrawRect x y w h ats)
  show ?thesis
  proof (rule rect_shape)
    show "rect x y w h ats c = Inr c'" using assms(2) DrawRect by simp
  qed (auto simp: DrawRect explicit_attrs_def split: option.splits)
next
  case (FillRect x y w h)
  show ?thesis
  proof (rule rect_shape)
    show "rect x y w h (Some [(''fill'', aget (attributes c) ''fill''), (''stroke'', lit ''none'')]) c
       = Inr c'" using assms(2) FillRect by (simp add: fillRect_def)
  qed simp
next
  case (PointerRect x y w h)
  show ?thesis
  proof (rule rect_shape)
    show "rect x y w h (Some [(''opacity'', Num 0), (''pointer-events'', lit ''auto'')]) c
       = Inr c'" using assms(2) PointerRect by (simp add: pointerRect_def)
  qed simp
next
  case (ClearRect x y w h)
  show ?thesis
  proof (rule rect_shape)
    show "rect x y w h (Some [(''fill'', lit (backgroundFillStyle c)), (''stroke'', lit ''none'')]) c
       = Inr c'" using assms(2) ClearRect by (simp add: clearRect_def)
  qed simp
next
  case (Fill ats)
  show ?thesis
  proof (rule leaf_shapeI)
    show "addElement (nextElementKey c)
       (new_node Path
          (applyAttributes_loop Path (top_of (groupAttributes c))
             (AList.update ''d'' (Str (path c))
                (case ats of
                   None \<Rightarrow> spread (attributes c) [(''stroke'', lit ''none'')]
                 | Some a \<Rightarrow> a))
             [(''key'', Num (of_nat (nextElementKey c)))])
          None)
       (c\<lparr>nextElementKey := nextElementKey c + 1\<rparr>) = Inr c'"
      using assms(2) Fill by (simp only: fill_eq step.simps)
    show "fst ` set (AList.update ''d'' (Str (path c))
                (case ats of
                   None \<Rightarrow> spread (attributes c) [(''stroke'', lit ''none'')]
                 | Some a \<Rightarrow> a)) \<subseteq> fst ` set (attributes c) \<union>
         {''fill'', ''stroke'', ''stroke-width'', ''d'', ''opacity'', ''pointer-events''} \<union>
         fst ` set (explicit_attrs o1)"
      by (auto simp: Fill explicit_attrs_def dom_update keys_spread split: option.splits)
  qed simp_all
next
  case Stroke
  show ?thesis
  proof (rule leaf_shapeI)
    show "addElement (nextElementKey c)
       (new_node Path
          (applyAttributes_loop Path (top_of (groupAttributes c))
             (spread (attributes c) [(''fill'', lit ''none''), (''d'', Str (path c))])
             [(''key'', Num (of_nat (nextElementKey c)))])
          None)
       (c\<lparr>nextElementKey := nextElementKey c + 1\<rparr>) = Inr c'"
      using assms(2) Stroke by (simp only: stroke_eq step.simps)
    show "fst ` set (spread (attributes c) [(''fill'', lit ''none''), (''d'', Str (path c))])
       \<subseteq> fst ` set (attributes c) \<union>
         {''fill'', ''stroke'', ''stroke-width'', ''d'', ''opacity'', ''pointer-events''} \<union>
         fst ` set (explicit_attrs o1)"
      by (auto simp: keys_spread)
  qed simp_all
next
  case (FillText t x y)
  then have t: "t \<noteq> []" using assms(1) by (simp add: leaf_op_def)
  show ?thesis
  proof (rule leaf_shapeI)
    show "addElement (nextElementKey c)
       (new_node Text
          (applyAttributes_loop Text (top_of (groupAttributes c))
             (spread (attributes c) [(''stroke'', lit ''none'')])
             [(''key'', Num (of_nat (nextElementKey c))),
              (''x'', Num (round_to c x)), (''y'', Num (round_to c y))])
          (Some t))
       (c\<lparr>nextElementKey := nextElementKey c + 1\<rparr>) = Inr c'"
      using assms(2) FillText fillText_eq [OF t] by simp
    show "fst ` set (spread (attributes c) [(''stroke'', lit ''none'')])
       \<subseteq> fst ` set (attributes c) \<union>
         {''fill'', ''stroke'', ''stroke-width'', ''d'', ''opacity'', ''pointer-events''} \<union>
         fst ` set (explicit_attrs o1)"
      by (auto simp: keys_spread)
  qed simp_all
qed (use assms(1) in \<open>simp_all add: leaf_op_def\<close>)

lemma aget_defined: "aget a k \<noteq> Undefined \<Longrightarrow> map_of a k = Some (aget a k)"
  by (auto simp: aget_def split: option.splits)

lemma map_of_key: "map_of a k = Some v \<Longrightarrow> k \<in> fst ` set a"
  by (drule map_of_SomeD) force

lemma aget_defined_key: "aget a k \<noteq> Undefined \<Longrightarrow> k \<in> fst ` set a"
  by (auto simp: aget_def split: option.splits dest: map_of_key)

lemma aget_absent: "k \<notin> fst ` set a \<Longrightarrow> aget a k = Undefined"
  by (simp add: aget_def map_of_eq_None_iff [THEN iffD2])

lemma svg_style_key: "svg_style a \<Longrightarrow> k \<in> fst ` set a \<Longrightarrow> k \<notin> snd ` set PROP_MAP"
  by (auto simp: svg_style_def)

lemma default_key_not_prop:
  "k \<in> {''fill'', ''stroke'', ''stroke-width'', ''d'', ''opacity'', ''pointer-events''} \<Longrightarrow>
     k \<notin> snd ` set PROP_MAP"
  unfolding prop_names by simp (elim disjE; simp)

lemma elided_raw:
  assumes g: "fst ` set g \<subseteq> set paint_keys" and k: "aget g k \<noteq> Undefined"
    and ps: "fst ` set ps \<subseteq> {''key'', ''x'', ''y'', ''width'', ''height''}"
  shows "aget (applyAttributes_loop ty (Some g) attrs ps) k \<noteq> aget g k"
proof
  assume eq: "aget (applyAttributes_loop ty (Some g) attrs ps) k = aget g k"
  have kp: "k \<in> set (''d'' # paint_keys)"
    using aget_defined_key [OF k] g by auto
  from eq k have "map_of (applyAttributes_loop ty (Some g) attrs ps) k = Some (aget g k)"
    using aget_defined [of "applyAttributes_loop ty (Some g) attrs ps" k] by simp
  then consider "map_of ps k = Some (aget g k)"
    | k' where "(k', aget g k) \<in> set attrs" "propName k' = k" "aget g k \<noteq> aget g k'"
    using loop_origin [of ty "Some g" attrs ps k "aget g k"] by auto
  then show False
  proof cases
    case 1
    then have "k \<in> fst ` set ps" by (rule map_of_key)
    then show False using ps paint_not_fixed [OF kp] by blast
  next
    case 2
    have "k' = k"
      using propName_range [of k'] 2(2) paint_not_prop [OF kp] by auto
    then show False using 2(3) by simp
  qed
qed

lemma elided_renamed:
  assumes g: "fst ` set g \<subseteq> set paint_keys" and k: "aget g k \<noteq> Undefined"
    and ps: "fst ` set ps \<subseteq> {''key'', ''x'', ''y'', ''width'', ''height''}"
    and attrs: "\<forall>k' \<in> fst ` set attrs. k' \<notin> snd ` set PROP_MAP"
  shows "aget (applyAttributes_loop ty (Some g) attrs ps) (propName k) \<noteq> aget g k"
proof
  assume eq: "aget (applyAttributes_loop ty (Some g) attrs ps) (propName k) = aget g k"
  have kp: "k \<in> set (''d'' # paint_keys)"
    using aget_defined_key [OF k] g by auto
  from eq k have "map_of (applyAttributes_loop ty (Some g) attrs ps) (propName k) = Some (aget g k)"
    using aget_defined [of "applyAttributes_loop ty (Some g) attrs ps" "propName k"] by simp
  then consider "map_of ps (propName k) = Some (aget g k)"
    | k' where "(k', aget g k) \<in> set attrs" "propName k' = propName k" "aget g k \<noteq> aget g k'"
    using loop_origin [of ty "Some g" attrs ps "propName k" "aget g k"] by auto
  then show False
  proof cases
    case 1
    then have "propName k \<in> fst ` set ps" by (rule map_of_key)
    then show False using ps propName_paint_not_fixed [OF kp] by blast
  next
    case 2
    have "k' \<in> fst ` set attrs" using 2(1) by force
    then have "k' \<notin> snd ` set PROP_MAP" using attrs by blast
    then have "k' = k"
      using propName_alias [OF 2(2)] paint_not_prop [OF kp] by auto
    then show False using 2(3) by simp
  qed
qed

text \<open>
  C5. In every state a drawing sequence can reach, a call that appends a leaf node (a
  rectangle, a path from \<^verbatim>\<open>fill\<close> or \<^verbatim>\<open>stroke\<close>, a text) appends it to the group on top of the
  group stack, and for every attribute that this group's effective attribute set defines,
  the node does not carry that value under that name. Nor does it carry the value under the
  prop name the attribute is rendered to, as long as an attribute argument of the call uses
  the SVG names and not the prop names themselves.
\<close>

theorem leaf_attributes_never_repeat_group:
  "run ops (new_ctx w h pl) = Inr c \<and> leaf_op o1 \<and> step o1 c = Inr c' \<longrightarrow>
     (\<exists>p g. parent c = Some p \<and> top_of (groups c) = Some p \<and>
        top_of (groupAttributes c) = Some g \<and>
        last (children (heap c' p)) = Own (nextElementKey c) \<and>
        (\<forall>k. aget g k \<noteq> Undefined \<longrightarrow>
           aget (props (heap c' (nextElementKey c))) k \<noteq> aget g k \<and>
           (svg_style (explicit_attrs o1) \<longrightarrow>
              aget (props (heap c' (nextElementKey c))) (propName k) \<noteq> aget g k)))"
proof (intro impI, elim conjE)
  assume r: "run ops (new_ctx w h pl) = Inr c" and l: "leaf_op o1" and s: "step o1 c = Inr c'"
  have con: "consistent c" using r new_ctx_consistent by (rule run_consistent)
  from leaf_shape [OF l s] obtain p ty attrs ps tc where p: "parent c = Some p"
    and hp: "heap c' = push_child p (Own (nextElementKey c))
        ((heap c)(nextElementKey c :=
           new_node ty (applyAttributes_loop ty (top_of (groupAttributes c)) attrs ps) tc))"
    and ps: "fst ` set ps \<subseteq> {''key'', ''x'', ''y'', ''width'', ''height''}"
    and attrs: "fst ` set attrs \<subseteq> fst ` set (attributes c) \<union>
         {''fill'', ''stroke'', ''stroke-width'', ''d'', ''opacity'', ''pointer-events''} \<union>
         fst ` set (explicit_attrs o1)"
    by (elim exE conjE) (rule that; assumption)
  have tg: "top_of (groups c) = Some p" using con p by (simp add: consistent_def)
  then have "groups c \<noteq> []" by (auto simp: top_of_def)
  then have "groupAttributes c \<noteq> []" using con by (auto simp: consistent_def)
  then obtain g where g: "top_of (groupAttributes c) = Some g" by (simp add: top_of_def)
  have "paint_attrs g" using con g by (auto simp: consistent_def dest: top_of_all)
  then have gk: "fst ` set g \<subseteq> set paint_keys" by (simp add: paint_attrs_def)
  have ak: "fst ` set (attributes c) \<subseteq> set paint_keys"
    using con by (simp add: consistent_def paint_attrs_def)
  have pr: "props (heap c' (nextElementKey c)) = applyAttributes_loop ty (Some g) attrs ps"
    by (simp add: hp push_child_sel new_node_def g)
  have lc: "last (children (heap c' p)) = Own (nextElementKey c)"
    by (simp add: hp push_child_sel)
  have raw: "aget (props (heap c' (nextElementKey c))) k \<noteq> aget g k"
    if "aget g k \<noteq> Undefined" for k
    unfolding pr using gk that ps by (rule elided_raw)
  have ren: "aget (props (heap c' (nextElementKey c))) (propName k) \<noteq> aget g k"
    if "aget g k \<noteq> Undefined" and st: "svg_style (explicit_attrs o1)" for k
    unfolding pr
  proof (rule elided_renamed [OF gk that(1) ps])
    show "\<forall>k' \<in> fst ` set attrs. k' \<notin> snd ` set PROP_MAP"
    proof
      fix k' assume "k' \<in> fst ` set attrs"
      then have "k' \<in> fst ` set (attributes c) \<union>
         {''fill'', ''stroke'', ''stroke-width'', ''d'', ''opacity'', ''pointer-events''} \<union>
         fst ` set (explicit_attrs o1)"
        using attrs by (rule subsetD [rotated])
      then consider "k' \<in> set paint_keys"
        | "k' \<in> {''fill'', ''stroke'', ''stroke-width'', ''d'', ''opacity'', ''pointer-events''}"
        | "k' \<in> fst ` set (explicit_attrs o1)"
        using ak by (elim UnE) (auto dest: subsetD)
      then show "k' \<notin> snd ` set PROP_MAP"
      proof cases
        case 1
        then show ?thesis using paint_not_prop [of k'] by simp
      next
        case 2
        then show ?thesis by (rule default_key_not_prop)
      next
        case 3
        then show ?thesis using st svg_style_key by blast
      qed
    qed
  qed
  show "\<exists>p g. parent c = Some p \<and> top_of (groups c) = Some p \<and>
        top_of (groupAttributes c) = Some g \<and>
        last (children (heap c' p)) = Own (nextElementKey c) \<and>
        (\<forall>k. aget g k \<noteq> Undefined \<longrightarrow>
           aget (props (heap c' (nextElementKey c))) k \<noteq> aget g k \<and>
           (svg_style (explicit_attrs o1) \<longrightarrow>
              aget (props (heap c' (nextElementKey c))) (propName k) \<noteq> aget g k))"
  proof (intro exI conjI allI impI)
    show "parent c = Some p" by (rule p)
    show "top_of (groups c) = Some p" by (rule tg)
    show "top_of (groupAttributes c) = Some g" by (rule g)
    show "last (children (heap c' p)) = Own (nextElementKey c)" by (rule lc)
  qed (rule raw ren; assumption)+
qed

theorem leaf_attributes_never_repeat_group_witness:
  "leaf_op (FillRect 0 0 10 10) \<and> svg_style (explicit_attrs (FillRect 0 0 10 10)) \<and>
   map_sum id (\<lambda>c'. aget (props (heap c' 3)) ''fill'' \<noteq> lit ''red'' \<and>
                     aget (props (heap c' 3)) ''strokeWidth'' \<noteq> Num 1)
     (run [SetFillStyle ''red'', OpenGroup None None, FillRect 0 0 10 10] (new_ctx None None 3))
   = Inr True"
proof -
  let ?c0 = "new_ctx None None 3"
  let ?c1 = "setFillStyle ''red'' ?c0"
  let ?ops = "[SetFillStyle ''red'', OpenGroup None None]"
  let ?o = "FillRect 0 0 10 10"
  have p1: "parent ?c1 = Some 1" by (simp add: setFillStyle_def set_attribute_def new_ctx_sel)
  from openGroup_result [OF p1, of None None] obtain c2 where
    og: "openGroup None None ?c1 = Inr (nextElementKey ?c1, c2)"
    and par: "parent c2 = Some (nextElementKey ?c1)"
    and ga: "groupAttributes c2 = groupAttributes ?c1 @
             [spread (case top_of (groupAttributes ?c1) of None \<Rightarrow> [] | Some g \<Rightarrow> g)
                (attributes ?c1)]"
    and nk: "nextElementKey c2 = nextElementKey ?c1 + 1"
    by blast
  have r: "run ?ops ?c0 = Inr c2" by (simp add: og)
  have "\<exists>c3. step ?o c2 = Inr c3"
    unfolding step.simps fillRect_def using par by (rule rect_succeeds)
  then obtain c3 where s: "step ?o c2 = Inr c3" ..
  have l: "leaf_op ?o" by (simp add: leaf_op_def)
  have st: "svg_style (explicit_attrs ?o)" by (simp add: explicit_attrs_def svg_style_def)
  have g: "top_of (groupAttributes c2) =
      Some [(''stroke-width'', Num 1), (''stroke-dasharray'', lit ''none''), (''fill'', lit ''red''),
      (''stroke'', lit ''black''), (''font-family'', lit ''Bravura, Academico, serif''),
      (''font-size'', lit ''10pt''), (''font-weight'', lit ''normal''),
      (''font-style'', lit ''normal'')]"
    by (simp add: ga top_of_def setFillStyle_def set_attribute_def new_ctx_sel
        initial_attributes_eq spread_def)
  have k3: "nextElementKey c2 = 3"
    by (simp add: nk setFillStyle_def set_attribute_def new_ctx_sel)
  have pn: "propName ''stroke-width'' = ''strokeWidth''"
    by (simp add: propName_def PROP_MAP_def)
  have hyp: "run ?ops ?c0 = Inr c2 \<and> leaf_op ?o \<and> step ?o c2 = Inr c3"
    using r l s by simp
  from leaf_attributes_never_repeat_group [of ?ops None None 3 c2 ?o c3, THEN mp, OF hyp]
  obtain g' where tg: "top_of (groupAttributes c2) = Some g'"
    and el: "\<forall>k. aget g' k \<noteq> Undefined \<longrightarrow>
           aget (props (heap c3 (nextElementKey c2))) k \<noteq> aget g' k \<and>
           (svg_style (explicit_attrs ?o) \<longrightarrow>
              aget (props (heap c3 (nextElementKey c2))) (propName k) \<noteq> aget g' k)"
    by (elim exE conjE) (rule that; assumption)
  have g': "g' = [(''stroke-width'', Num 1), (''stroke-dasharray'', lit ''none''),
      (''fill'', lit ''red''), (''stroke'', lit ''black''),
      (''font-family'', lit ''Bravura, Academico, serif''),
      (''font-size'', lit ''10pt''), (''font-weight'', lit ''normal''),
      (''font-style'', lit ''normal'')]"
    using tg g by simp
  have gf: "aget g' ''fill'' = lit ''red''" and gw: "aget g' ''stroke-width'' = Num 1"
    unfolding g' by (simp_all add: aget_def)
  have "aget (props (heap c3 3)) ''fill'' \<noteq> lit ''red''"
    using el [rule_format, of "''fill''"] gf k3 by (simp add: lit_def)
  moreover have "aget (props (heap c3 3)) ''strokeWidth'' \<noteq> Num 1"
    using el [rule_format, of "''stroke-width''"] gw k3 st pn by simp
  ultimately have "aget (props (heap c3 3)) ''fill'' \<noteq> lit ''red'' \<and>
        aget (props (heap c3 3)) ''strokeWidth'' \<noteq> Num 1" ..
  then show ?thesis
    using l st r s by (simp add: og)
qed


section \<open>Filling and stroking the pending path\<close>

















end
